theory Spec2Isabelle
  imports Main "HOL-Library.Word"
begin

unbundle bit_operations_syntax

section \<open>Data model of the cipher meta-functions (cipher.c)\<close>

type_synonym octets = "8 word list"

text \<open>
  Modelled from the spec: the status enumeration lives in err.h, which is not part of the
  sources at hand. The five outcomes of the spec's taxonomy are named; every other code a
  concrete cipher may hand back is \<open>srtp_err_status_other\<close>. The C tests \<open>if (status)\<close>
  are tests against \<open>srtp_err_status_ok\<close>, the zero of the enumeration.
\<close>

datatype srtp_err_status_t =
    srtp_err_status_ok
  | srtp_err_status_bad_param
  | srtp_err_status_no_such_op
  | srtp_err_status_cant_check
  | srtp_err_status_algo_fail
  | srtp_err_status_other nat

text \<open>
  Modelled from the spec: the algorithm identities come from crypto_types.h (not at hand);
  the spec enumerates the null cipher, the AES counter-mode variants and the two AES-GCM
  identities. Any further identity is \<open>SRTP_CIPHER_OTHER\<close>.
\<close>

datatype srtp_cipher_type_id_t =
    SRTP_NULL_CIPHER
  | SRTP_AES_ICM_128
  | SRTP_AES_ICM_192
  | SRTP_AES_ICM_256
  | SRTP_AES_GCM_128
  | SRTP_AES_GCM_256
  | SRTP_CIPHER_OTHER nat

text \<open>Memory faults of the C program: they are not statuses, the call never returns.\<close>

datatype fault = null_dereference | buffer_overrun

text \<open>
  Modelled from the spec: cipher.h, which declares the direction, the test vector, the
  function-pointer table and the instance, is not at hand. The fields are the ones cipher.c
  reads, with the algorithm identity the spec gives the capability descriptor; the
  directions are the spec's two.
\<close>

datatype srtp_cipher_direction_t = srtp_direction_encrypt | srtp_direction_decrypt

text \<open>
  A test vector, \<open>srtp_cipher_test_case_t\<close>. The octet arrays are lists, the declared
  lengths are separate fields as in the struct; the \<open>next_test_case\<close> link is the tail of
  the list the vector sits in.
\<close>

record srtp_cipher_test_case_t =
  key_length_octets :: nat
  key :: octets
  idx :: octets
  plaintext_length_octets :: nat
  plaintext :: octets
  ciphertext_length_octets :: nat
  ciphertext :: octets
  aad_length_octets :: nat
  aad :: octets
  tag_length_octets :: nat

text \<open>
  The function-pointer table \<open>srtp_cipher_type_t\<close> and the instance \<open>srtp_cipher_t\<close>.
  \<open>'s\<close> is what the opaque \<open>void *state\<close> points to (\<open>None\<close> is the null pointer), \<open>'w\<close>
  is all memory the concrete cipher owns. A concrete operation is a function on \<open>'w\<close>.
  The pointers cipher.c tests against null before calling (\<open>alloc\<close>, \<open>set_aad\<close>,
  \<open>get_tag\<close>) are options; the others are called unchecked and are plain functions.
  An operation that writes through \<open>dst\<close> or \<open>buffer\<close> returns the octets it wrote and
  the new value of its length argument. \<open>dealloc\<close> receives the instance; it is given
  the instance's state pointer here. The two types are codatatypes because the pointers
  go round: an instance points to its table, whose \<open>alloc\<close> makes such instances.
\<close>

codatatype ('s, 'w) srtp_cipher_type_t = Cipher_Type
    (alloc: "(nat \<Rightarrow> nat \<Rightarrow> 'w \<Rightarrow>
       srtp_err_status_t \<times> ('s, 'w) srtp_cipher_t option \<times> 'w) option")
    (dealloc: "'s option \<Rightarrow> 'w \<Rightarrow> srtp_err_status_t \<times> 'w")
    (init: "'s option \<Rightarrow> octets \<Rightarrow> 'w \<Rightarrow> srtp_err_status_t \<times> 'w")
    (set_aad: "('s option \<Rightarrow> octets \<Rightarrow> nat \<Rightarrow> 'w \<Rightarrow> srtp_err_status_t \<times> 'w) option")
    (encrypt: "'s option \<Rightarrow> octets \<Rightarrow> nat \<Rightarrow> nat \<Rightarrow> 'w \<Rightarrow>
       srtp_err_status_t \<times> octets \<times> nat \<times> 'w")
    (decrypt: "'s option \<Rightarrow> octets \<Rightarrow> nat \<Rightarrow> nat \<Rightarrow> 'w \<Rightarrow>
       srtp_err_status_t \<times> octets \<times> nat \<times> 'w")
    (set_iv: "'s option \<Rightarrow> octets \<Rightarrow> srtp_cipher_direction_t \<Rightarrow> 'w \<Rightarrow>
       srtp_err_status_t \<times> 'w")
    (get_tag: "('s option \<Rightarrow> nat \<Rightarrow> 'w \<Rightarrow>
       srtp_err_status_t \<times> octets \<times> nat \<times> 'w) option")
    (description: string)
    (test_data: "srtp_cipher_test_case_t list")
    (type_id: srtp_cipher_type_id_t)
and ('s, 'w) srtp_cipher_t = Cipher
    (cipher_type: "('s, 'w) srtp_cipher_type_t option")
    (state: "'s option")
    (key_len: nat)
    (algorithm: srtp_cipher_type_id_t)

section \<open>The dispatch layer\<close>

definition srtp_cipher_type_alloc ::
  "('s, 'w) srtp_cipher_type_t option \<Rightarrow> nat \<Rightarrow> nat \<Rightarrow> 'w \<Rightarrow>
     srtp_err_status_t \<times> ('s, 'w) srtp_cipher_t option \<times> 'w" where
  "srtp_cipher_type_alloc ct klen tlen w =
     (case ct of
        None \<Rightarrow> (srtp_err_status_bad_param, None, w)
      | Some t \<Rightarrow>
          (case alloc t of
             None \<Rightarrow> (srtp_err_status_bad_param, None, w)
           | Some f \<Rightarrow> f klen tlen w))"

definition srtp_cipher_dealloc ::
  "('s, 'w) srtp_cipher_t option \<Rightarrow> 'w \<Rightarrow> srtp_err_status_t \<times> 'w" where
  "srtp_cipher_dealloc c w =
     (case c of
        None \<Rightarrow> (srtp_err_status_bad_param, w)
      | Some ci \<Rightarrow>
          (case cipher_type ci of
             None \<Rightarrow> (srtp_err_status_bad_param, w)
           | Some t \<Rightarrow> dealloc t (state ci) w))"

definition srtp_cipher_init ::
  "('s, 'w) srtp_cipher_t option \<Rightarrow> octets \<Rightarrow> 'w \<Rightarrow> srtp_err_status_t \<times> 'w" where
  "srtp_cipher_init c k w =
     (case c of
        None \<Rightarrow> (srtp_err_status_bad_param, w)
      | Some ci \<Rightarrow>
          (case cipher_type ci of
             None \<Rightarrow> (srtp_err_status_bad_param, w)
           | Some t \<Rightarrow>
               (case state ci of
                  None \<Rightarrow> (srtp_err_status_bad_param, w)
                | Some s \<Rightarrow> init t (Some s) k w)))"

definition srtp_cipher_set_iv ::
  "('s, 'w) srtp_cipher_t option \<Rightarrow> octets \<Rightarrow> srtp_cipher_direction_t \<Rightarrow> 'w \<Rightarrow>
     srtp_err_status_t \<times> 'w" where
  "srtp_cipher_set_iv c iv direction w =
     (case c of
        None \<Rightarrow> (srtp_err_status_bad_param, w)
      | Some ci \<Rightarrow>
          (case cipher_type ci of
             None \<Rightarrow> (srtp_err_status_bad_param, w)
           | Some t \<Rightarrow>
               (case state ci of
                  None \<Rightarrow> (srtp_err_status_bad_param, w)
                | Some s \<Rightarrow> set_iv t (Some s) iv direction w)))"

text \<open>
  \<open>srtp_cipher_output\<close> reads \<open>c->type->encrypt\<close> and \<open>c->state\<close> with no test at all:
  a null instance or a null type pointer is dereferenced. The buffer handed to the
  concrete cipher is the zeroised one.
\<close>

definition srtp_cipher_output ::
  "('s, 'w) srtp_cipher_t option \<Rightarrow> octets \<Rightarrow> nat \<Rightarrow> 'w \<Rightarrow>
     fault + (srtp_err_status_t \<times> octets \<times> nat \<times> 'w)" where
  "srtp_cipher_output c buffer num_octets_to_output w =
     (let zeroed = replicate num_octets_to_output 0 @ drop num_octets_to_output buffer
      in case c of
           None \<Rightarrow> Inl null_dereference
         | Some ci \<Rightarrow>
             (case cipher_type ci of
                None \<Rightarrow> Inl null_dereference
              | Some t \<Rightarrow>
                  Inr (encrypt t (state ci) zeroed num_octets_to_output
                         num_octets_to_output w)))"

definition srtp_cipher_encrypt ::
  "('s, 'w) srtp_cipher_t option \<Rightarrow> octets \<Rightarrow> nat \<Rightarrow> nat \<Rightarrow> 'w \<Rightarrow>
     srtp_err_status_t \<times> octets \<times> nat \<times> 'w" where
  "srtp_cipher_encrypt c src src_len dst_len w =
     (case c of
        None \<Rightarrow> (srtp_err_status_bad_param, [], dst_len, w)
      | Some ci \<Rightarrow>
          (case cipher_type ci of
             None \<Rightarrow> (srtp_err_status_bad_param, [], dst_len, w)
           | Some t \<Rightarrow>
               (case state ci of
                  None \<Rightarrow> (srtp_err_status_bad_param, [], dst_len, w)
                | Some s \<Rightarrow> encrypt t (Some s) src src_len dst_len w)))"

definition srtp_cipher_decrypt ::
  "('s, 'w) srtp_cipher_t option \<Rightarrow> octets \<Rightarrow> nat \<Rightarrow> nat \<Rightarrow> 'w \<Rightarrow>
     srtp_err_status_t \<times> octets \<times> nat \<times> 'w" where
  "srtp_cipher_decrypt c src src_len dst_len w =
     (case c of
        None \<Rightarrow> (srtp_err_status_bad_param, [], dst_len, w)
      | Some ci \<Rightarrow>
          (case cipher_type ci of
             None \<Rightarrow> (srtp_err_status_bad_param, [], dst_len, w)
           | Some t \<Rightarrow>
               (case state ci of
                  None \<Rightarrow> (srtp_err_status_bad_param, [], dst_len, w)
                | Some s \<Rightarrow> decrypt t (Some s) src src_len dst_len w)))"

definition srtp_cipher_get_tag ::
  "('s, 'w) srtp_cipher_t option \<Rightarrow> nat \<Rightarrow> 'w \<Rightarrow>
     srtp_err_status_t \<times> octets \<times> nat \<times> 'w" where
  "srtp_cipher_get_tag c tag_len w =
     (case c of
        None \<Rightarrow> (srtp_err_status_bad_param, [], tag_len, w)
      | Some ci \<Rightarrow>
          (case cipher_type ci of
             None \<Rightarrow> (srtp_err_status_bad_param, [], tag_len, w)
           | Some t \<Rightarrow>
               (case state ci of
                  None \<Rightarrow> (srtp_err_status_bad_param, [], tag_len, w)
                | Some s \<Rightarrow>
                    (case get_tag t of
                       None \<Rightarrow> (srtp_err_status_no_such_op, [], tag_len, w)
                     | Some f \<Rightarrow> f (Some s) tag_len w))))"

definition srtp_cipher_set_aad ::
  "('s, 'w) srtp_cipher_t option \<Rightarrow> octets \<Rightarrow> nat \<Rightarrow> 'w \<Rightarrow> srtp_err_status_t \<times> 'w" where
  "srtp_cipher_set_aad c a aad_len w =
     (case c of
        None \<Rightarrow> (srtp_err_status_bad_param, w)
      | Some ci \<Rightarrow>
          (case cipher_type ci of
             None \<Rightarrow> (srtp_err_status_bad_param, w)
           | Some t \<Rightarrow>
               (case state ci of
                  None \<Rightarrow> (srtp_err_status_bad_param, w)
                | Some s \<Rightarrow>
                    (case set_aad t of
                       None \<Rightarrow> (srtp_err_status_no_such_op, w)
                     | Some f \<Rightarrow> f (Some s) a aad_len w))))"

definition srtp_cipher_get_key_length :: "('s, 'w) srtp_cipher_t option \<Rightarrow> fault + nat" where
  "srtp_cipher_get_key_length c =
     (case c of None \<Rightarrow> Inl null_dereference | Some ci \<Rightarrow> Inr (key_len ci))"

text \<open>The test \<open>!c || !c->type || !c->state\<close> of the dispatch functions, as a predicate.\<close>

definition instance_missing :: "('s, 'w) srtp_cipher_t option \<Rightarrow> bool" where
  "instance_missing c =
     (case c of
        None \<Rightarrow> True
      | Some ci \<Rightarrow> cipher_type ci = None \<or> state ci = None)"

text \<open>The instance's table has no \<open>get_tag\<close> (no \<open>set_aad\<close>) entry.\<close>

definition lacks_get_tag :: "('s, 'w) srtp_cipher_t option \<Rightarrow> bool" where
  "lacks_get_tag c =
     (case c of
        None \<Rightarrow> True
      | Some ci \<Rightarrow> (case cipher_type ci of None \<Rightarrow> True | Some t \<Rightarrow> get_tag t = None))"

definition lacks_set_aad :: "('s, 'w) srtp_cipher_t option \<Rightarrow> bool" where
  "lacks_set_aad c =
     (case c of
        None \<Rightarrow> True
      | Some ci \<Rightarrow> (case cipher_type ci of None \<Rightarrow> True | Some t \<Rightarrow> set_aad t = None))"


section \<open>The test-only random source\<close>

text \<open>
  \<open>rand()\<close> belongs to the C library: its output sequence is a parameter, \<open>rnd n\<close> being
  the value of the \<open>n\<close>-th call. \<open>srtp_cipher_rand_for_tests\<close> returns the octets it
  stores through \<open>dest\<close> and the number of calls made so far.
\<close>

primrec srtp_cipher_rand_for_tests :: "nat \<Rightarrow> (nat \<Rightarrow> int) \<Rightarrow> nat \<Rightarrow> octets \<times> nat" where
  "srtp_cipher_rand_for_tests 0 rnd n = ([], n)"
| "srtp_cipher_rand_for_tests (Suc l) rnd n =
     (let val = rnd n;
          (rest, n') = srtp_cipher_rand_for_tests l rnd (Suc n)
      in (word_of_int (val AND 0xff) # rest, n'))"

text \<open>The four octets of a \<open>uint32_t\<close> read as a number, in the host's byte order.\<close>

definition u32_of_octets :: "bool \<Rightarrow> octets \<Rightarrow> 32 word" where
  "u32_of_octets big_end bs =
     (if big_end then foldl (\<lambda>acc b. 256 * acc + ucast b) 0 bs
      else foldr (\<lambda>b acc. ucast b + 256 * acc) bs 0)"


definition srtp_cipher_rand_u32_for_tests :: "bool \<Rightarrow> (nat \<Rightarrow> int) \<Rightarrow> nat \<Rightarrow> 32 word \<times> nat" where
  "srtp_cipher_rand_u32_for_tests big_end rnd n =
     (let (bs, n') = srtp_cipher_rand_for_tests 4 rnd n in (u32_of_octets big_end bs, n'))"

section \<open>State of a run and the calls it makes\<close>

definition SELF_TEST_BUF_OCTETS :: nat where "SELF_TEST_BUF_OCTETS = 128"
definition NUM_RAND_TESTS :: nat where "NUM_RAND_TESTS = 128"
definition MAX_KEY_LEN :: nat where "MAX_KEY_LEN = 64"

text \<open>
  Every call into the dispatch layer is recorded, with its arguments and the status it
  returned. The record is ghost state: the dispatch functions do not see it. Besides the
  arguments an entry holds what the call handed back: the instance for an allocation, the
  new length for a transform or a tag retrieval; a deallocation holds the instance it was
  given and the cipher's memory before and after it.
\<close>

datatype ('s, 'w) dispatch_call =
    Call_alloc nat nat "('s, 'w) srtp_cipher_t option"
  | Call_dealloc "('s, 'w) srtp_cipher_t option" 'w 'w
  | Call_init octets
  | Call_set_iv octets srtp_cipher_direction_t
  | Call_set_aad octets nat
  | Call_encrypt nat nat
  | Call_decrypt nat nat
  | Call_get_tag nat

type_synonym ('s, 'w) event = "('s, 'w) dispatch_call \<times> srtp_err_status_t"

record ('s, 'w) dispatch_state =
  world :: 'w
  trace :: "('s, 'w) event list"

text \<open>
  The locals of \<open>srtp_cipher_type_test\<close> and what it reads from the host. An array is a
  list as long as the array; \<open>rnd_key\<close> and \<open>rnd_iv\<close> are the arrays \<open>key\<close> and \<open>iv\<close> of
  the randomized loop (renamed: \<open>key\<close> is a field of the test vector). Sizes are \<open>nat\<close>.
\<close>

record ('s, 'w) test_state = "('s, 'w) dispatch_state" +
  rand_src :: "nat \<Rightarrow> int"
  rand_calls :: nat
  big_endian :: bool
  buffer :: octets
  buffer2 :: octets
  rnd_key :: octets
  rnd_iv :: octets
  tag_len :: nat
  len :: nat
  case_num :: nat
  plaintext_len :: nat
  encrypted_len :: nat
  decrypted_len :: nat

definition locals_ok :: "('s, 'w) test_state \<Rightarrow> bool" where
  "locals_ok st =
     (length (buffer st) = SELF_TEST_BUF_OCTETS \<and> length (buffer2 st) = SELF_TEST_BUF_OCTETS \<and>
      length (rnd_key st) = MAX_KEY_LEN \<and> length (rnd_iv st) = MAX_KEY_LEN)"

text \<open>How a function leaves a stretch of code: it falls through, returns, or faults.\<close>

datatype ('r, 'a) flow = Proceed 'a | Returned 'r 'a | Crashed fault

definition and_then :: "('r, 'a) flow \<Rightarrow> ('a \<Rightarrow> ('r, 'a) flow) \<Rightarrow> ('r, 'a) flow" where
  "and_then r f =
     (case r of Proceed st \<Rightarrow> f st | Returned s st \<Rightarrow> Returned s st | Crashed x \<Rightarrow> Crashed x)"

definition flow_state :: "('r, 'a) flow \<Rightarrow> 'a option" where
  "flow_state r = (case r of Proceed st \<Rightarrow> Some st | Returned s st \<Rightarrow> Some st | Crashed x \<Rightarrow> None)"

definition flow_status :: "('r, 'a) flow \<Rightarrow> 'r option" where
  "flow_status r = (case r of Proceed st \<Rightarrow> None | Returned s st \<Rightarrow> Some s | Crashed x \<Rightarrow> None)"

definition logged :: "('s, 'w) dispatch_call \<Rightarrow> srtp_err_status_t \<Rightarrow> 'w \<Rightarrow>
    ('s, 'w, 'z) dispatch_state_scheme \<Rightarrow> ('s, 'w, 'z) dispatch_state_scheme" where
  "logged call status w st = st\<lparr>world := w, trace := trace st @ [(call, status)]\<rparr>"

definition call_alloc :: "('s, 'w) srtp_cipher_type_t option \<Rightarrow> nat \<Rightarrow> nat \<Rightarrow>
    ('s, 'w, 'z) dispatch_state_scheme \<Rightarrow>
    srtp_err_status_t \<times> ('s, 'w) srtp_cipher_t option \<times> ('s, 'w, 'z) dispatch_state_scheme" where
  "call_alloc ct klen tlen st =
     (case srtp_cipher_type_alloc ct klen tlen (world st) of
        (status, c, w) \<Rightarrow> (status, c, logged (Call_alloc klen tlen c) status w st))"

definition call_dealloc :: "('s, 'w) srtp_cipher_t option \<Rightarrow>
    ('s, 'w, 'z) dispatch_state_scheme \<Rightarrow> srtp_err_status_t \<times> ('s, 'w, 'z) dispatch_state_scheme" where
  "call_dealloc c st =
     (case srtp_cipher_dealloc c (world st) of
        (status, w) \<Rightarrow> (status, logged (Call_dealloc c (world st) w) status w st))"

definition call_init :: "('s, 'w) srtp_cipher_t option \<Rightarrow> octets \<Rightarrow>
    ('s, 'w, 'z) dispatch_state_scheme \<Rightarrow> srtp_err_status_t \<times> ('s, 'w, 'z) dispatch_state_scheme" where
  "call_init c k st =
     (case srtp_cipher_init c k (world st) of
        (status, w) \<Rightarrow> (status, logged (Call_init k) status w st))"

definition call_set_iv :: "('s, 'w) srtp_cipher_t option \<Rightarrow> octets \<Rightarrow> srtp_cipher_direction_t \<Rightarrow>
    ('s, 'w, 'z) dispatch_state_scheme \<Rightarrow> srtp_err_status_t \<times> ('s, 'w, 'z) dispatch_state_scheme" where
  "call_set_iv c iv direction st =
     (case srtp_cipher_set_iv c iv direction (world st) of
        (status, w) \<Rightarrow> (status, logged (Call_set_iv iv direction) status w st))"

definition call_set_aad :: "('s, 'w) srtp_cipher_t option \<Rightarrow> octets \<Rightarrow> nat \<Rightarrow>
    ('s, 'w, 'z) dispatch_state_scheme \<Rightarrow> srtp_err_status_t \<times> ('s, 'w, 'z) dispatch_state_scheme" where
  "call_set_aad c a alen st =
     (case srtp_cipher_set_aad c a alen (world st) of
        (status, w) \<Rightarrow> (status, logged (Call_set_aad a alen) status w st))"

definition call_encrypt :: "('s, 'w) srtp_cipher_t option \<Rightarrow> octets \<Rightarrow> nat \<Rightarrow> nat \<Rightarrow>
    ('s, 'w, 'z) dispatch_state_scheme \<Rightarrow>
    srtp_err_status_t \<times> octets \<times> nat \<times> ('s, 'w, 'z) dispatch_state_scheme" where
  "call_encrypt c src src_len dst_len st =
     (case srtp_cipher_encrypt c src src_len dst_len (world st) of
        (status, out, n, w) \<Rightarrow> (status, out, n, logged (Call_encrypt src_len n) status w st))"

definition call_decrypt :: "('s, 'w) srtp_cipher_t option \<Rightarrow> octets \<Rightarrow> nat \<Rightarrow> nat \<Rightarrow>
    ('s, 'w, 'z) dispatch_state_scheme \<Rightarrow>
    srtp_err_status_t \<times> octets \<times> nat \<times> ('s, 'w, 'z) dispatch_state_scheme" where
  "call_decrypt c src src_len dst_len st =
     (case srtp_cipher_decrypt c src src_len dst_len (world st) of
        (status, out, n, w) \<Rightarrow> (status, out, n, logged (Call_decrypt src_len n) status w st))"

definition call_get_tag :: "('s, 'w) srtp_cipher_t option \<Rightarrow> nat \<Rightarrow>
    ('s, 'w, 'z) dispatch_state_scheme \<Rightarrow>
    srtp_err_status_t \<times> octets \<times> nat \<times> ('s, 'w, 'z) dispatch_state_scheme" where
  "call_get_tag c tlen st =
     (case srtp_cipher_get_tag c tlen (world st) of
        (status, out, n, w) \<Rightarrow> (status, out, n, logged (Call_get_tag n) status w st))"

text \<open>
  Octets \<open>out\<close> stored from offset \<open>off\<close> of an array (by a concrete cipher through its
  \<open>dst\<close> pointer, or by the random source): past the end of the array it is a fault.
\<close>

definition write_octets :: "nat \<Rightarrow> octets \<Rightarrow> octets \<Rightarrow> fault + octets" where
  "write_octets off out arr =
     (if off + length out \<le> length arr
      then Inr (take off arr @ out @ drop (off + length out) arr)
      else Inl buffer_overrun)"

text \<open>The loop \<open>for (k = 0; k < n; k++) dst[k] = src[k]\<close>, from index \<open>k\<close> on.\<close>

function copy_octets :: "nat \<Rightarrow> nat \<Rightarrow> octets \<Rightarrow> octets \<Rightarrow> fault + octets" where
  "copy_octets k n src dst =
     (if k < n then
        (if k < length dst \<and> k < length src
         then copy_octets (Suc k) n src (dst[k := src ! k])
         else Inl buffer_overrun)
      else Inr dst)"
  by pat_completeness auto
termination
  by (relation "measure (\<lambda>(k, n, src, dst). n - k)") auto

declare copy_octets.simps [simp del]

text \<open>
  The comparison loops. The one of the encryption direction leaves at the first
  difference (\<open>break\<close>); the others run to the end. Both start from \<open>status\<close>.
\<close>

function compare_until_mismatch ::
  "nat \<Rightarrow> nat \<Rightarrow> octets \<Rightarrow> octets \<Rightarrow> srtp_err_status_t \<Rightarrow> fault + srtp_err_status_t" where
  "compare_until_mismatch k n a b status =
     (if k < n then
        (if k < length a \<and> k < length b
         then (if a ! k \<noteq> b ! k then Inr srtp_err_status_algo_fail
               else compare_until_mismatch (Suc k) n a b status)
         else Inl buffer_overrun)
      else Inr status)"
  by pat_completeness auto
termination
  by (relation "measure (\<lambda>(k, n, a, b, status). n - k)") auto

declare compare_until_mismatch.simps [simp del]

function compare_all ::
  "nat \<Rightarrow> nat \<Rightarrow> octets \<Rightarrow> octets \<Rightarrow> srtp_err_status_t \<Rightarrow> fault + srtp_err_status_t" where
  "compare_all k n a b status =
     (if k < n then
        (if k < length a \<and> k < length b
         then compare_all (Suc k) n a b
                (if a ! k \<noteq> b ! k then srtp_err_status_algo_fail else status)
         else Inl buffer_overrun)
      else Inr status)"
  by pat_completeness auto
termination
  by (relation "measure (\<lambda>(k, n, a, b, status). n - k)") auto

declare compare_all.simps [simp del]


section \<open>The self-test: \<open>srtp_cipher_type_test\<close>\<close>

type_synonym ('s, 'w) test_flow = "(srtp_err_status_t, ('s, 'w) test_state) flow"

text \<open>\<open>srtp_cipher_dealloc(c); return status;\<close>\<close>

definition fail_with :: "('s, 'w) srtp_cipher_t option \<Rightarrow> srtp_err_status_t \<Rightarrow>
    ('s, 'w) test_state \<Rightarrow> ('s, 'w) test_flow" where
  "fail_with c status st = Returned status (snd (call_dealloc c st))"

text \<open>\<open>if (status) { srtp_cipher_dealloc(c); return status; }\<close>\<close>

definition checked :: "('s, 'w) srtp_cipher_t option \<Rightarrow> srtp_err_status_t \<Rightarrow>
    ('s, 'w) test_state \<Rightarrow> ('s, 'w) test_flow" where
  "checked c status st =
     (if status \<noteq> srtp_err_status_ok then fail_with c status st else Proceed st)"

definition init_step :: "('s, 'w) srtp_cipher_t option \<Rightarrow> octets \<Rightarrow>
    ('s, 'w) test_state \<Rightarrow> ('s, 'w) test_flow" where
  "init_step c k st = (case call_init c k st of (status, st') \<Rightarrow> checked c status st')"

definition capacity_step :: "('s, 'w) srtp_cipher_t option \<Rightarrow> srtp_cipher_test_case_t \<Rightarrow>
    ('s, 'w) test_state \<Rightarrow> ('s, 'w) test_flow" where
  "capacity_step c tc st =
     (if ciphertext_length_octets tc > SELF_TEST_BUF_OCTETS
      then fail_with c srtp_err_status_bad_param st
      else Proceed st)"

definition set_iv_step :: "('s, 'w) srtp_cipher_t option \<Rightarrow> octets \<Rightarrow>
    srtp_cipher_direction_t \<Rightarrow> ('s, 'w) test_state \<Rightarrow> ('s, 'w) test_flow" where
  "set_iv_step c iv direction st =
     (case call_set_iv c iv direction st of (status, st') \<Rightarrow> checked c status st')"

text \<open>\<open>c->algorithm == SRTP_AES_GCM_128 || c->algorithm == SRTP_AES_GCM_256\<close>\<close>

definition gcm_algorithm :: "('s, 'w) srtp_cipher_t \<Rightarrow> bool" where
  "gcm_algorithm ci = (algorithm ci = SRTP_AES_GCM_128 \<or> algorithm ci = SRTP_AES_GCM_256)"

definition set_aad_step :: "('s, 'w) srtp_cipher_t option \<Rightarrow> srtp_cipher_test_case_t \<Rightarrow>
    ('s, 'w) test_state \<Rightarrow> ('s, 'w) test_flow" where
  "set_aad_step c tc st =
     (case c of
        None \<Rightarrow> Crashed null_dereference
      | Some ci \<Rightarrow>
          if gcm_algorithm ci
          then (case call_set_aad c (aad tc) (aad_length_octets tc) st of
                  (status, st') \<Rightarrow> checked c status st')
          else Proceed st)"

subsection \<open>Known-answer pass, one vector\<close>

definition load_plaintext :: "srtp_cipher_test_case_t \<Rightarrow> ('s, 'w) test_state \<Rightarrow> ('s, 'w) test_flow" where
  "load_plaintext tc st =
     (case copy_octets 0 (plaintext_length_octets tc) (plaintext tc) (buffer st) of
        Inl x \<Rightarrow> Crashed x
      | Inr b \<Rightarrow> Proceed (st\<lparr>buffer := b\<rparr>))"

definition kat_encrypt_step :: "('s, 'w) srtp_cipher_t option \<Rightarrow> srtp_cipher_test_case_t \<Rightarrow>
    ('s, 'w) test_state \<Rightarrow> ('s, 'w) test_flow" where
  "kat_encrypt_step c tc st =
     (case call_encrypt c (buffer st) (plaintext_length_octets tc) SELF_TEST_BUF_OCTETS st of
        (status, out, n, st') \<Rightarrow>
          (case write_octets 0 out (buffer st') of
             Inl x \<Rightarrow> Crashed x
           | Inr b \<Rightarrow> checked c status (st'\<lparr>buffer := b, len := n\<rparr>)))"

definition kat_get_tag_step :: "('s, 'w) srtp_cipher_t option \<Rightarrow>
    ('s, 'w) test_state \<Rightarrow> ('s, 'w) test_flow" where
  "kat_get_tag_step c st =
     (case c of
        None \<Rightarrow> Crashed null_dereference
      | Some ci \<Rightarrow>
          if gcm_algorithm ci
          then (case call_get_tag c (tag_len st) st of
                  (status, out, n, st') \<Rightarrow>
                    (case write_octets (len st') out (buffer st') of
                       Inl x \<Rightarrow> Crashed x
                     | Inr b \<Rightarrow>
                         and_then (checked c status (st'\<lparr>buffer := b, tag_len := n\<rparr>))
                           (\<lambda>st''. Proceed (st''\<lparr>len := len st'' + tag_len st''\<rparr>))))
          else Proceed st)"

definition kat_check_ciphertext :: "('s, 'w) srtp_cipher_t option \<Rightarrow> srtp_cipher_test_case_t \<Rightarrow>
    ('s, 'w) test_state \<Rightarrow> ('s, 'w) test_flow" where
  "kat_check_ciphertext c tc st =
     (if len st \<noteq> ciphertext_length_octets tc then fail_with c srtp_err_status_algo_fail st
      else
        (case compare_until_mismatch 0 (ciphertext_length_octets tc) (buffer st) (ciphertext tc)
                srtp_err_status_ok of
           Inl x \<Rightarrow> Crashed x
         | Inr status \<Rightarrow>
             if status \<noteq> srtp_err_status_ok then fail_with c srtp_err_status_algo_fail st
             else Proceed st))"

definition known_answer_encrypt :: "('s, 'w) srtp_cipher_t option \<Rightarrow> srtp_cipher_test_case_t \<Rightarrow>
    ('s, 'w) test_state \<Rightarrow> ('s, 'w) test_flow" where
  "known_answer_encrypt c tc st =
     and_then (init_step c (key tc) st) (\<lambda>st.
     and_then (capacity_step c tc st) (\<lambda>st.
     and_then (load_plaintext tc st) (\<lambda>st.
     and_then (set_iv_step c (idx tc) srtp_direction_encrypt st) (\<lambda>st.
     and_then (set_aad_step c tc st) (\<lambda>st.
     and_then (kat_encrypt_step c tc st) (\<lambda>st.
     and_then (kat_get_tag_step c st) (\<lambda>st.
     kat_check_ciphertext c tc st)))))))"

definition load_ciphertext :: "srtp_cipher_test_case_t \<Rightarrow> ('s, 'w) test_state \<Rightarrow> ('s, 'w) test_flow" where
  "load_ciphertext tc st =
     (case copy_octets 0 (ciphertext_length_octets tc) (ciphertext tc) (buffer st) of
        Inl x \<Rightarrow> Crashed x
      | Inr b \<Rightarrow> Proceed (st\<lparr>buffer := b\<rparr>))"

definition kat_decrypt_step :: "('s, 'w) srtp_cipher_t option \<Rightarrow> srtp_cipher_test_case_t \<Rightarrow>
    ('s, 'w) test_state \<Rightarrow> ('s, 'w) test_flow" where
  "kat_decrypt_step c tc st =
     (case call_decrypt c (buffer st) (ciphertext_length_octets tc) SELF_TEST_BUF_OCTETS st of
        (status, out, n, st') \<Rightarrow>
          (case write_octets 0 out (buffer st') of
             Inl x \<Rightarrow> Crashed x
           | Inr b \<Rightarrow> checked c status (st'\<lparr>buffer := b, len := n\<rparr>)))"

definition kat_check_plaintext :: "('s, 'w) srtp_cipher_t option \<Rightarrow> srtp_cipher_test_case_t \<Rightarrow>
    ('s, 'w) test_state \<Rightarrow> ('s, 'w) test_flow" where
  "kat_check_plaintext c tc st =
     (if len st \<noteq> plaintext_length_octets tc then fail_with c srtp_err_status_algo_fail st
      else
        (case compare_all 0 (plaintext_length_octets tc) (buffer st) (plaintext tc)
                srtp_err_status_ok of
           Inl x \<Rightarrow> Crashed x
         | Inr status \<Rightarrow>
             if status \<noteq> srtp_err_status_ok then fail_with c srtp_err_status_algo_fail st
             else Proceed st))"

definition known_answer_decrypt :: "('s, 'w) srtp_cipher_t option \<Rightarrow> srtp_cipher_test_case_t \<Rightarrow>
    ('s, 'w) test_state \<Rightarrow> ('s, 'w) test_flow" where
  "known_answer_decrypt c tc st =
     and_then (init_step c (key tc) st) (\<lambda>st.
     and_then (capacity_step c tc st) (\<lambda>st.
     and_then (load_ciphertext tc st) (\<lambda>st.
     and_then (set_iv_step c (idx tc) srtp_direction_decrypt st) (\<lambda>st.
     and_then (set_aad_step c tc st) (\<lambda>st.
     and_then (kat_decrypt_step c tc st) (\<lambda>st.
     kat_check_plaintext c tc st))))))"

text \<open>\<open>status = srtp_cipher_dealloc(c); if (status) return status;\<close>\<close>

definition final_dealloc :: "('s, 'w) srtp_cipher_t option \<Rightarrow> ('s, 'w) test_state \<Rightarrow> ('s, 'w) test_flow" where
  "final_dealloc c st =
     (case call_dealloc c st of
        (status, st') \<Rightarrow>
          if status \<noteq> srtp_err_status_ok then Returned status st' else Proceed st')"

text \<open>The body of the loop over the vectors, for the vector \<open>tc\<close>.\<close>

definition known_answer_case :: "('s, 'w) srtp_cipher_type_t option \<Rightarrow> srtp_cipher_test_case_t \<Rightarrow>
    ('s, 'w) test_state \<Rightarrow> ('s, 'w) test_flow" where
  "known_answer_case ct tc st =
     (case call_alloc ct (key_length_octets tc) (tag_length_octets tc) st of
        (status, c, st') \<Rightarrow>
          if status \<noteq> srtp_err_status_ok then Returned status st'
          else
            and_then (known_answer_encrypt c tc st') (\<lambda>st.
            and_then (known_answer_decrypt c tc st) (\<lambda>st.
            and_then (final_dealloc c st) (\<lambda>st.
            Proceed (st\<lparr>case_num := case_num st + 1\<rparr>)))))"

fun known_answer_tests :: "('s, 'w) srtp_cipher_type_t option \<Rightarrow> srtp_cipher_test_case_t list \<Rightarrow>
    ('s, 'w) test_state \<Rightarrow> ('s, 'w) test_flow" where
  "known_answer_tests ct [] st = Proceed st"
| "known_answer_tests ct (tc # rest) st =
     (case known_answer_case ct tc st of
        Proceed st' \<Rightarrow> known_answer_tests ct rest st'
      | Returned status st' \<Rightarrow> Returned status st'
      | Crashed x \<Rightarrow> Crashed x)"


subsection \<open>Randomized pass, one trial\<close>

definition draw_plaintext :: "('s, 'w) test_state \<Rightarrow> ('s, 'w) test_flow" where
  "draw_plaintext st =
     (case srtp_cipher_rand_u32_for_tests (big_endian st) (rand_src st) (rand_calls st) of
        (r, n1) \<Rightarrow>
          (let plen = unat (r mod of_nat (SELF_TEST_BUF_OCTETS - 64))
           in case srtp_cipher_rand_for_tests plen (rand_src st) n1 of
                (os, n2) \<Rightarrow>
                  (case write_octets 0 os (buffer st) of
                     Inl x \<Rightarrow> Crashed x
                   | Inr b \<Rightarrow>
                       (case copy_octets 0 plen b (buffer2 st) of
                          Inl x \<Rightarrow> Crashed x
                        | Inr b2 \<Rightarrow>
                            Proceed (st\<lparr>rand_calls := n2, buffer := b, buffer2 := b2,
                                        plaintext_len := plen\<rparr>)))))"

definition key_guard :: "('s, 'w) srtp_cipher_t option \<Rightarrow> srtp_cipher_test_case_t \<Rightarrow>
    ('s, 'w) test_state \<Rightarrow> ('s, 'w) test_flow" where
  "key_guard c tc st =
     (if key_length_octets tc > MAX_KEY_LEN
      then fail_with c srtp_err_status_cant_check st
      else Proceed st)"

definition draw_key_iv :: "srtp_cipher_test_case_t \<Rightarrow> ('s, 'w) test_state \<Rightarrow> ('s, 'w) test_flow" where
  "draw_key_iv tc st =
     (case srtp_cipher_rand_for_tests (key_length_octets tc) (rand_src st) (rand_calls st) of
        (ks, n1) \<Rightarrow>
          (case write_octets 0 ks (rnd_key st) of
             Inl x \<Rightarrow> Crashed x
           | Inr k \<Rightarrow>
               (case srtp_cipher_rand_for_tests MAX_KEY_LEN (rand_src st) n1 of
                  (ivs, n2) \<Rightarrow>
                    (case write_octets 0 ivs (rnd_iv st) of
                       Inl x \<Rightarrow> Crashed x
                     | Inr v \<Rightarrow> Proceed (st\<lparr>rand_calls := n2, rnd_key := k, rnd_iv := v\<rparr>)))))"

definition rand_encrypt_step :: "('s, 'w) srtp_cipher_t option \<Rightarrow>
    ('s, 'w) test_state \<Rightarrow> ('s, 'w) test_flow" where
  "rand_encrypt_step c st =
     (case call_encrypt c (buffer st) (plaintext_len st) SELF_TEST_BUF_OCTETS st of
        (status, out, n, st') \<Rightarrow>
          (case write_octets 0 out (buffer st') of
             Inl x \<Rightarrow> Crashed x
           | Inr b \<Rightarrow> checked c status (st'\<lparr>buffer := b, encrypted_len := n\<rparr>)))"

definition rand_get_tag_step :: "('s, 'w) srtp_cipher_t option \<Rightarrow>
    ('s, 'w) test_state \<Rightarrow> ('s, 'w) test_flow" where
  "rand_get_tag_step c st =
     (case c of
        None \<Rightarrow> Crashed null_dereference
      | Some ci \<Rightarrow>
          if gcm_algorithm ci
          then (case call_get_tag c (tag_len st) st of
                  (status, out, n, st') \<Rightarrow>
                    (case write_octets (encrypted_len st') out (buffer st') of
                       Inl x \<Rightarrow> Crashed x
                     | Inr b \<Rightarrow>
                         and_then (checked c status (st'\<lparr>buffer := b, tag_len := n\<rparr>))
                           (\<lambda>st''. Proceed
                              (st''\<lparr>encrypted_len := encrypted_len st'' + tag_len st''\<rparr>))))
          else Proceed st)"

definition rand_decrypt_step :: "('s, 'w) srtp_cipher_t option \<Rightarrow>
    ('s, 'w) test_state \<Rightarrow> ('s, 'w) test_flow" where
  "rand_decrypt_step c st =
     (case call_decrypt c (buffer st) (encrypted_len st) SELF_TEST_BUF_OCTETS st of
        (status, out, n, st') \<Rightarrow>
          (case write_octets 0 out (buffer st') of
             Inl x \<Rightarrow> Crashed x
           | Inr b \<Rightarrow> checked c status (st'\<lparr>buffer := b, decrypted_len := n\<rparr>)))"

definition rand_check :: "('s, 'w) srtp_cipher_t option \<Rightarrow> ('s, 'w) test_state \<Rightarrow> ('s, 'w) test_flow" where
  "rand_check c st =
     (if decrypted_len st \<noteq> plaintext_len st then fail_with c srtp_err_status_algo_fail st
      else
        (case compare_all 0 (plaintext_len st) (buffer st) (buffer2 st) srtp_err_status_ok of
           Inl x \<Rightarrow> Crashed x
         | Inr status \<Rightarrow>
             if status \<noteq> srtp_err_status_ok then fail_with c srtp_err_status_algo_fail st
             else Proceed st))"

text \<open>The body of the loop over \<open>j\<close>; \<open>tc\<close> is the first vector of the list.\<close>

definition random_trial :: "('s, 'w) srtp_cipher_t option \<Rightarrow> srtp_cipher_test_case_t \<Rightarrow>
    ('s, 'w) test_state \<Rightarrow> ('s, 'w) test_flow" where
  "random_trial c tc st =
     and_then (draw_plaintext st) (\<lambda>st.
     and_then (key_guard c tc st) (\<lambda>st.
     and_then (draw_key_iv tc st) (\<lambda>st.
     and_then (init_step c (rnd_key st) st) (\<lambda>st.
     and_then (set_iv_step c (idx tc) srtp_direction_encrypt st) (\<lambda>st.
     and_then (set_aad_step c tc st) (\<lambda>st.
     and_then (rand_encrypt_step c st) (\<lambda>st.
     and_then (rand_get_tag_step c st) (\<lambda>st.
     and_then (init_step c (rnd_key st) st) (\<lambda>st.
     and_then (set_iv_step c (idx tc) srtp_direction_decrypt st) (\<lambda>st.
     and_then (set_aad_step c tc st) (\<lambda>st.
     and_then (rand_decrypt_step c st) (\<lambda>st.
     rand_check c st))))))))))))"

primrec random_trials :: "nat \<Rightarrow> ('s, 'w) srtp_cipher_t option \<Rightarrow> srtp_cipher_test_case_t \<Rightarrow>
    ('s, 'w) test_state \<Rightarrow> ('s, 'w) test_flow" where
  "random_trials 0 c tc st = Proceed st"
| "random_trials (Suc n) c tc st =
     (case random_trial c tc st of
        Proceed st' \<Rightarrow> random_trials n c tc st'
      | Returned status st' \<Rightarrow> Returned status st'
      | Crashed x \<Rightarrow> Crashed x)"

definition random_tests :: "('s, 'w) srtp_cipher_type_t option \<Rightarrow> srtp_cipher_test_case_t list \<Rightarrow>
    ('s, 'w) test_state \<Rightarrow> ('s, 'w) test_flow" where
  "random_tests ct test_cases st =
     (case test_cases of
        [] \<Rightarrow> Crashed null_dereference
      | tc # rest \<Rightarrow>
          (case call_alloc ct (key_length_octets tc) (tag_length_octets tc) st of
             (status, c, st') \<Rightarrow>
               if status \<noteq> srtp_err_status_ok then Returned status st'
               else
                 and_then (random_trials NUM_RAND_TESTS c tc st') (\<lambda>st.
                 and_then (final_dealloc c st) (\<lambda>st.
                 Returned srtp_err_status_ok st))))"

subsection \<open>The whole self-test\<close>

definition srtp_cipher_type_test :: "('s, 'w) srtp_cipher_type_t option \<Rightarrow>
    srtp_cipher_test_case_t list \<Rightarrow> ('s, 'w) test_state \<Rightarrow> ('s, 'w) test_flow" where
  "srtp_cipher_type_test ct test_cases st =
     (case test_cases of
        [] \<Rightarrow> Returned srtp_err_status_cant_check st
      | tc # rest \<Rightarrow>
          and_then (known_answer_tests ct test_cases (st\<lparr>case_num := 0\<rparr>))
            (random_tests ct test_cases))"

definition srtp_cipher_type_self_test :: "('s, 'w) srtp_cipher_type_t option \<Rightarrow>
    ('s, 'w) test_state \<Rightarrow> ('s, 'w) test_flow" where
  "srtp_cipher_type_self_test ct st =
     (case ct of
        None \<Rightarrow> Crashed null_dereference
      | Some t \<Rightarrow> srtp_cipher_type_test ct (test_data t) st)"

section \<open>The benchmark: \<open>srtp_cipher_bits_per_second\<close>\<close>










section \<open>A concrete cipher to run the definitions on\<close>

text \<open>
  A cipher in the manner of libsrtp's null cipher: the transform copies its input. Its
  memory is the number of live instances. Given a tag, it has the two optional operations:
  \<open>get_tag\<close> hands out the tag and \<open>decrypt\<close> strips as many octets from the end.
\<close>

primcorec copy_cipher :: "srtp_cipher_type_id_t \<Rightarrow> octets option \<Rightarrow> (unit, nat) srtp_cipher_type_t"
  and copy_cipher_instance :: "srtp_cipher_type_id_t \<Rightarrow> octets option \<Rightarrow> nat \<Rightarrow>
    (unit, nat) srtp_cipher_t" where
  "copy_cipher alg tag =
     Cipher_Type
       (Some (\<lambda>klen tlen w. (srtp_err_status_ok, Some (copy_cipher_instance alg tag klen), Suc w)))
       (\<lambda>s w. (srtp_err_status_ok, w - 1))
       (\<lambda>s k w. (srtp_err_status_ok, w))
       (case tag of None \<Rightarrow> None | Some t \<Rightarrow> Some (\<lambda>s a n w. (srtp_err_status_ok, w)))
       (\<lambda>s src n dlen w. (srtp_err_status_ok, take n src, n, w))
       (\<lambda>s src n dlen w.
          (srtp_err_status_ok, take (n - (case tag of None \<Rightarrow> 0 | Some t \<Rightarrow> length t)) src,
           n - (case tag of None \<Rightarrow> 0 | Some t \<Rightarrow> length t), w))
       (\<lambda>s iv d w. (srtp_err_status_ok, w))
       (case tag of None \<Rightarrow> None | Some t \<Rightarrow> Some (\<lambda>s n w. (srtp_err_status_ok, t, length t, w)))
       ''copy cipher''
       []
       alg"
| "copy_cipher_instance alg tag klen = Cipher (Some (copy_cipher alg tag)) (Some ()) klen alg"


text \<open>
  Two ciphers that misbehave. The first is the copy cipher without the optional
  operations, except that its \<open>init\<close> refuses every key with algorithm-failure. The
  second hands back, with status ok, an instance whose type pointer is null; its memory
  counts the live instances too.
\<close>

primcorec refusing_cipher :: "(unit, nat) srtp_cipher_type_t"
  and refusing_cipher_instance :: "nat \<Rightarrow> (unit, nat) srtp_cipher_t" where
  "refusing_cipher =
     Cipher_Type
       (Some (\<lambda>klen tlen w. (srtp_err_status_ok, Some (refusing_cipher_instance klen), Suc w)))
       (\<lambda>s w. (srtp_err_status_ok, w - 1))
       (\<lambda>s k w. (srtp_err_status_algo_fail, w))
       None
       (\<lambda>s src n dlen w. (srtp_err_status_ok, take n src, n, w))
       (\<lambda>s src n dlen w. (srtp_err_status_ok, take n src, n, w))
       (\<lambda>s iv d w. (srtp_err_status_ok, w))
       None
       ''refusing cipher''
       []
       SRTP_NULL_CIPHER"
| "refusing_cipher_instance klen = Cipher (Some refusing_cipher) (Some ()) klen SRTP_NULL_CIPHER"

definition hollow_cipher :: "(unit, nat) srtp_cipher_type_t" where
  "hollow_cipher =
     Cipher_Type
       (Some (\<lambda>klen tlen w.
          (srtp_err_status_ok, Some (Cipher None (Some ()) klen SRTP_NULL_CIPHER), Suc w)))
       (\<lambda>s w. (srtp_err_status_ok, w - 1))
       (\<lambda>s k w. (srtp_err_status_ok, w))
       None
       (\<lambda>s src n dlen w. (srtp_err_status_ok, take n src, n, w))
       (\<lambda>s src n dlen w. (srtp_err_status_ok, take n src, n, w))
       (\<lambda>s iv d w. (srtp_err_status_ok, w))
       None
       ''hollow cipher''
       []
       SRTP_NULL_CIPHER"

section \<open>Reading the record of calls\<close>

text \<open>
  What \<open>srtp_cipher_dealloc\<close> is to do with the instance \<open>c\<close> in the memory \<open>w\<close>, said
  through the table: an instance that carries its table is released by the table's
  \<open>dealloc\<close>, whose status \<open>d\<close> and memory \<open>w'\<close> are the outcome; a null instance, or one
  without a table, is refused with bad-parameter and the memory stays as it is.
\<close>

definition dealloc_outcome :: "('s, 'w) srtp_cipher_t option \<Rightarrow> srtp_err_status_t \<Rightarrow>
    'w \<Rightarrow> 'w \<Rightarrow> bool" where
  "dealloc_outcome c d w w' =
     (case c of
        None \<Rightarrow> d = srtp_err_status_bad_param \<and> w' = w
      | Some ci \<Rightarrow>
          (case cipher_type ci of
             None \<Rightarrow> d = srtp_err_status_bad_param \<and> w' = w
           | Some t \<Rightarrow> dealloc t (state ci) w = (d, w')))"

text \<open>
  A script is the list of calls a stretch of code makes, in order, each entry saying which
  call it is. \<open>completes\<close>: the recorded calls are the whole script, each one ok.
  \<open>follows s\<close>: they are the beginning of the script, each one ok except possibly the
  last, whose status is then \<open>s\<close>.
\<close>

definition init_with :: "octets \<Rightarrow> ('s, 'w) dispatch_call \<Rightarrow> bool" where
  "init_with k call = (call = Call_init k)"

definition some_init :: "('s, 'w) dispatch_call \<Rightarrow> bool" where
  "some_init call = (case call of Call_init k \<Rightarrow> True | _ \<Rightarrow> False)"

definition set_iv_with :: "octets \<Rightarrow> srtp_cipher_direction_t \<Rightarrow> ('s, 'w) dispatch_call \<Rightarrow> bool" where
  "set_iv_with iv d call = (call = Call_set_iv iv d)"

definition set_aad_with :: "octets \<Rightarrow> nat \<Rightarrow> ('s, 'w) dispatch_call \<Rightarrow> bool" where
  "set_aad_with a n call = (call = Call_set_aad a n)"

definition encrypt_of :: "nat \<Rightarrow> ('s, 'w) dispatch_call \<Rightarrow> bool" where
  "encrypt_of n call = (case call of Call_encrypt src_len m \<Rightarrow> src_len = n | _ \<Rightarrow> False)"

definition some_encrypt :: "('s, 'w) dispatch_call \<Rightarrow> bool" where
  "some_encrypt call = (case call of Call_encrypt src_len m \<Rightarrow> True | _ \<Rightarrow> False)"

definition decrypt_of :: "nat \<Rightarrow> ('s, 'w) dispatch_call \<Rightarrow> bool" where
  "decrypt_of n call = (case call of Call_decrypt src_len m \<Rightarrow> src_len = n | _ \<Rightarrow> False)"

definition some_decrypt :: "('s, 'w) dispatch_call \<Rightarrow> bool" where
  "some_decrypt call = (case call of Call_decrypt src_len m \<Rightarrow> True | _ \<Rightarrow> False)"

definition some_get_tag :: "('s, 'w) dispatch_call \<Rightarrow> bool" where
  "some_get_tag call = (case call of Call_get_tag m \<Rightarrow> True | _ \<Rightarrow> False)"

definition completes :: "(('s, 'w) dispatch_call \<Rightarrow> bool) list \<Rightarrow> ('s, 'w) event list \<Rightarrow> bool" where
  "completes ps evs = list_all2 (\<lambda>p e. p (fst e) \<and> snd e = srtp_err_status_ok) ps evs"

fun follows :: "srtp_err_status_t \<Rightarrow> (('s, 'w) dispatch_call \<Rightarrow> bool) list \<Rightarrow>
    ('s, 'w) event list \<Rightarrow> bool" where
  "follows s ps [] = True"
| "follows s [] (e # es) = False"
| "follows s (p # ps) (e # es) =
     (p (fst e) \<and>
      (if snd e = srtp_err_status_ok then follows s ps es else snd e = s \<and> es = []))"

text \<open>
  \<open>runs c ps tr r\<close>: from the record \<open>tr\<close>, the stretch with outcome \<open>r\<close> worked through
  the script \<open>ps\<close>. Falling through, it made all its calls, each ok. Returning \<open>s\<close>
  (which is not ok), it made the calls up to the one that failed, if one did, then one
  \<open>srtp_cipher_dealloc\<close> call on the instance \<open>c\<close>, and the memory it leaves is the one
  this call left.
\<close>

definition runs :: "('s, 'w) srtp_cipher_t option \<Rightarrow> (('s, 'w) dispatch_call \<Rightarrow> bool) list \<Rightarrow>
    ('s, 'w) event list \<Rightarrow> (srtp_err_status_t, ('s, 'w, 'z) dispatch_state_scheme) flow \<Rightarrow> bool" where
  "runs c ps tr r =
     (case r of
        Proceed st' \<Rightarrow> (\<exists>evs. trace st' = tr @ evs \<and> completes ps evs)
      | Returned s st' \<Rightarrow>
          s \<noteq> srtp_err_status_ok \<and>
          (\<exists>evs w d. trace st' = tr @ evs @ [(Call_dealloc c w (world st'), d)] \<and>
             follows s ps evs \<and> dealloc_outcome c d w (world st'))
      | Crashed x \<Rightarrow> True)"

text \<open>
  The scripts of the two directions of the known-answer test and of a trial: the two
  AEAD calls are in them when the instance's algorithm is AES-GCM, and only then.
\<close>

definition is_gcm :: "('s, 'w) srtp_cipher_t option \<Rightarrow> bool" where
  "is_gcm c = (case c of None \<Rightarrow> False | Some ci \<Rightarrow> gcm_algorithm ci)"

definition kat_encrypt_calls :: "('s, 'w) srtp_cipher_t option \<Rightarrow> srtp_cipher_test_case_t \<Rightarrow>
    (('s, 'w) dispatch_call \<Rightarrow> bool) list" where
  "kat_encrypt_calls c tc =
     [init_with (key tc), set_iv_with (idx tc) srtp_direction_encrypt] @
     (if is_gcm c then [set_aad_with (aad tc) (aad_length_octets tc)] else []) @
     [encrypt_of (plaintext_length_octets tc)] @
     (if is_gcm c then [some_get_tag] else [])"

definition kat_decrypt_calls :: "('s, 'w) srtp_cipher_t option \<Rightarrow> srtp_cipher_test_case_t \<Rightarrow>
    (('s, 'w) dispatch_call \<Rightarrow> bool) list" where
  "kat_decrypt_calls c tc =
     [init_with (key tc), set_iv_with (idx tc) srtp_direction_decrypt] @
     (if is_gcm c then [set_aad_with (aad tc) (aad_length_octets tc)] else []) @
     [decrypt_of (ciphertext_length_octets tc)]"

definition trial_calls :: "('s, 'w) srtp_cipher_t option \<Rightarrow> srtp_cipher_test_case_t \<Rightarrow>
    (('s, 'w) dispatch_call \<Rightarrow> bool) list" where
  "trial_calls c tc =
     [some_init, set_iv_with (idx tc) srtp_direction_encrypt] @
     (if is_gcm c then [set_aad_with (aad tc) (aad_length_octets tc)] else []) @
     [some_encrypt] @
     (if is_gcm c then [some_get_tag] else []) @
     [some_init, set_iv_with (idx tc) srtp_direction_decrypt] @
     (if is_gcm c then [set_aad_with (aad tc) (aad_length_octets tc)] else []) @
     [some_decrypt]"

text \<open>
  The life of one instance, as recorded after its allocation: calls following the script,
  then one \<open>srtp_cipher_dealloc\<close> call on that instance. \<open>closes\<close>: a stretch that ends,
  on every exit, with that call.
\<close>

definition lifetime :: "('s, 'w) srtp_cipher_t option \<Rightarrow> (('s, 'w) dispatch_call \<Rightarrow> bool) list \<Rightarrow>
    ('s, 'w) event list \<Rightarrow> bool" where
  "lifetime c ps evs =
     (\<exists>body s w w' d. evs = body @ [(Call_dealloc c w w', d)] \<and> follows s ps body \<and>
        dealloc_outcome c d w w')"

definition closes :: "('s, 'w) srtp_cipher_t option \<Rightarrow> (('s, 'w) dispatch_call \<Rightarrow> bool) list \<Rightarrow>
    ('s, 'w) event list \<Rightarrow> ('r, ('s, 'w, 'z) dispatch_state_scheme) flow \<Rightarrow> bool" where
  "closes c ps tr r =
     (case flow_state r of
        None \<Rightarrow> True
      | Some st' \<Rightarrow> (\<exists>evs. trace st' = tr @ evs \<and> lifetime c ps evs))"

text \<open>
  \<open>lifecycle\<close> keeps, of a record, the successful allocations and the deallocations.
  \<open>each_released\<close>: they come in pairs, an allocation and then the deallocation of the
  instance it handed back, with the outcome \<open>srtp_cipher_dealloc\<close> is to have on it.
  \<open>paired\<close>: this holds of what a stretch added to the record.
\<close>

fun lifecycle :: "('s, 'w) event list \<Rightarrow> ('s, 'w) event list" where
  "lifecycle [] = []"
| "lifecycle ((Call_alloc klen tlen c, s) # es) =
     (if s = srtp_err_status_ok then (Call_alloc klen tlen c, s) # lifecycle es else lifecycle es)"
| "lifecycle ((Call_dealloc c w w', s) # es) = (Call_dealloc c w w', s) # lifecycle es"
| "lifecycle (e # es) = lifecycle es"

fun each_released :: "('s, 'w) event list \<Rightarrow> bool" where
  "each_released [] = True"
| "each_released (e # es) =
     (case fst e of
        Call_alloc klen tlen c \<Rightarrow>
          (case es of
             [] \<Rightarrow> False
           | e' # es' \<Rightarrow>
               (case fst e' of
                  Call_dealloc c' w w' \<Rightarrow>
                    c' = c \<and> dealloc_outcome c (snd e') w w' \<and> each_released es'
                | _ \<Rightarrow> False))
      | _ \<Rightarrow> False)"

definition paired :: "('s, 'w) event list \<Rightarrow> ('r, ('s, 'w, 'z) dispatch_state_scheme) flow \<Rightarrow> bool" where
  "paired tr r =
     (case flow_state r of
        None \<Rightarrow> True
      | Some st' \<Rightarrow> (\<exists>evs. trace st' = tr @ evs \<and> each_released (lifecycle evs)))"

text \<open>\<open>keeps g st r\<close>: the stretch leaves the component \<open>g\<close> of the state as it was.\<close>

definition keeps :: "('a \<Rightarrow> 'b) \<Rightarrow> 'a \<Rightarrow> ('r, 'a) flow \<Rightarrow> bool" where
  "keeps g st r = (case flow_state r of None \<Rightarrow> True | Some st' \<Rightarrow> g st' = g st)"

text \<open>Of a record of calls: the IV and direction of each \<open>srtp_cipher_set_iv\<close> call.\<close>

fun set_iv_calls :: "('s, 'w) event list \<Rightarrow> (octets \<times> srtp_cipher_direction_t) list" where
  "set_iv_calls [] = []"
| "set_iv_calls ((Call_set_iv iv d, s) # es) = (iv, d) # set_iv_calls es"
| "set_iv_calls (e # es) = set_iv_calls es"

section \<open>Sample inputs\<close>

text \<open>
  Locals of the right sizes over a random source that always yields 3, a vector the copy
  cipher passes, and one it passes when it is given the tag \<open>[0xAA]\<close>.
\<close>

definition sample_locals :: "(unit, nat) test_state" where
  "sample_locals =
     \<lparr>world = 0, trace = [], rand_src = (\<lambda>n. 3), rand_calls = 0, big_endian = False,
      buffer = replicate 128 0, buffer2 = replicate 128 0,
      rnd_key = replicate 64 0, rnd_iv = replicate 64 0,
      tag_len = 0, len = 0, case_num = 0, plaintext_len = 0, encrypted_len = 0,
      decrypted_len = 0\<rparr>"

definition sample_vector :: srtp_cipher_test_case_t where
  "sample_vector =
     \<lparr>key_length_octets = 2, key = [1, 2], idx = [9],
      plaintext_length_octets = 3, plaintext = [1, 2, 3],
      ciphertext_length_octets = 3, ciphertext = [1, 2, 3],
      aad_length_octets = 0, aad = [], tag_length_octets = 0\<rparr>"





definition all_ok :: "('s, 'w) event list \<Rightarrow> bool" where
  "all_ok tr = list_all (\<lambda>e. snd e = srtp_err_status_ok) tr"



section \<open>Properties of the dispatch layer\<close>

lemma instance_missing_get_tag:
  "instance_missing c \<Longrightarrow> srtp_cipher_get_tag c n w = (srtp_err_status_bad_param, [], n, w)"
  by (auto simp: instance_missing_def srtp_cipher_get_tag_def split: option.splits)

lemma instance_missing_set_aad:
  "instance_missing c \<Longrightarrow> srtp_cipher_set_aad c a m w = (srtp_err_status_bad_param, w)"
  by (auto simp: instance_missing_def srtp_cipher_set_aad_def split: option.splits)

text \<open>
  C2. The claim: \<open>srtp_cipher_output\<close> on a null instance, or on one whose type pointer is
  null, returns bad-parameter without forwarding. The function has no such test: in both
  cases it dereferences the null pointer, and no status is returned.
\<close>

theorem srtp_cipher_output_null_dereference:
  "srtp_cipher_output None buf n w = Inl null_dereference \<and>
   srtp_cipher_output (Some (Cipher None s k a)) buf n w = Inl null_dereference \<and>
   srtp_cipher_output (None :: (unit, nat) srtp_cipher_t option) [1, 2] 2 0
     \<noteq> Inr (srtp_err_status_bad_param, [1, 2], 2, 0)"
  by (simp add: srtp_cipher_output_def)

text \<open>
  C5. For an instance whose table has no \<open>get_tag\<close> (no \<open>set_aad\<close>) entry, the call
  returns no-such-operation when instance, table and state are all present, and
  bad-parameter exactly when one of them is missing; nothing is written and the cipher's
  memory is untouched. A missing instance, table or state gives bad-parameter whatever the
  table holds.
\<close>

theorem optional_operation_absent:
  "(lacks_get_tag c \<longrightarrow>
      srtp_cipher_get_tag c n w =
        (if instance_missing c then srtp_err_status_bad_param else srtp_err_status_no_such_op,
         [], n, w)) \<and>
   (lacks_set_aad c \<longrightarrow>
      srtp_cipher_set_aad c a m w =
        (if instance_missing c then srtp_err_status_bad_param else srtp_err_status_no_such_op,
         w)) \<and>
   (instance_missing c \<longrightarrow>
      fst (srtp_cipher_get_tag c n w) = srtp_err_status_bad_param \<and>
      fst (srtp_cipher_set_aad c a m w) = srtp_err_status_bad_param) \<and>
   srtp_err_status_no_such_op \<noteq> srtp_err_status_bad_param"
  by (auto simp: lacks_get_tag_def lacks_set_aad_def instance_missing_def
        srtp_cipher_get_tag_def srtp_cipher_set_aad_def split: option.splits)

theorem optional_operation_absent_witness:
  "lacks_get_tag (Some (copy_cipher_instance SRTP_NULL_CIPHER None 16)) \<and>
   lacks_set_aad (Some (copy_cipher_instance SRTP_NULL_CIPHER None 16)) \<and>
   \<not> instance_missing (Some (copy_cipher_instance SRTP_NULL_CIPHER None 16)) \<and>
   srtp_cipher_get_tag (Some (copy_cipher_instance SRTP_NULL_CIPHER None 16)) 7 (1::nat) =
     (srtp_err_status_no_such_op, [], 7, 1) \<and>
   srtp_cipher_set_aad (Some (copy_cipher_instance SRTP_NULL_CIPHER None 16)) [0] 1 (1::nat) =
     (srtp_err_status_no_such_op, 1) \<and>
   instance_missing (None :: (unit, nat) srtp_cipher_t option) \<and>
   lacks_get_tag (None :: (unit, nat) srtp_cipher_t option) \<and>
   srtp_cipher_get_tag (None :: (unit, nat) srtp_cipher_t option) 7 (1::nat) =
     (srtp_err_status_bad_param, [], 7, 1)"
  using optional_operation_absent
          [of "Some (copy_cipher_instance SRTP_NULL_CIPHER None 16)" 7 "1::nat" "[0]" 1]
        optional_operation_absent [of "None :: (unit, nat) srtp_cipher_t option" 7 "1::nat" "[0]" 1]
  by (simp add: lacks_get_tag_def lacks_set_aad_def instance_missing_def)
section \<open>The calls of the self-test, step by step\<close>

lemma dealloc_outcome_iff: "dealloc_outcome c d w w' = (srtp_cipher_dealloc c w = (d, w'))"
  by (auto simp: dealloc_outcome_def srtp_cipher_dealloc_def split: option.splits)

lemma completes_Nil: "completes [] []"
  by (simp add: completes_def)

lemma completes_single: "p call \<Longrightarrow> completes [p] [(call, srtp_err_status_ok)]"
  by (simp add: completes_def)

lemma completes_append:
  "completes ps1 evs1 \<Longrightarrow> completes ps2 evs2 \<Longrightarrow> completes (ps1 @ ps2) (evs1 @ evs2)"
  unfolding completes_def by (rule list_all2_appendI)

lemma completes_follows: "completes ps evs \<Longrightarrow> follows s ps evs"
  unfolding completes_def by (induction ps evs rule: list_all2_induct) simp_all

lemma follows_after_completes:
  "completes ps1 evs1 \<Longrightarrow> follows s ps2 evs2 \<Longrightarrow> follows s (ps1 @ ps2) (evs1 @ evs2)"
  unfolding completes_def by (induction ps1 evs1 rule: list_all2_induct) simp_all

lemma follows_longer: "follows s ps1 evs \<Longrightarrow> follows s (ps1 @ ps2) evs"
  by (induction s ps1 evs rule: follows.induct) (auto split: if_splits)

lemma runs_and_then:
  assumes "runs c ps1 tr r" and "\<And>st1. runs c ps2 (trace st1) (f st1)"
  shows "runs c (ps1 @ ps2) tr (and_then r f)"
proof (cases r)
  case (Proceed st1)
  then obtain evs1 where e: "trace st1 = tr @ evs1" "completes ps1 evs1"
    using assms(1) by (auto simp: runs_def)
  show ?thesis
  proof (cases "f st1")
    case p2: (Proceed st2)
    then obtain evs2 where "trace st2 = trace st1 @ evs2" "completes ps2 evs2"
      using assms(2)[of st1] by (auto simp: runs_def)
    then have "trace st2 = tr @ (evs1 @ evs2) \<and> completes (ps1 @ ps2) (evs1 @ evs2)"
      using e by (simp add: completes_append)
    then have "\<exists>evs. trace st2 = tr @ evs \<and> completes (ps1 @ ps2) evs" by blast
    then show ?thesis using Proceed p2 by (simp add: runs_def and_then_def)
  next
    case (Returned s st2)
    then obtain evs2 w d where
        r: "s \<noteq> srtp_err_status_ok"
           "trace st2 = trace st1 @ evs2 @ [(Call_dealloc c w (world st2), d)]"
           "follows s ps2 evs2" "dealloc_outcome c d w (world st2)"
      using assms(2)[of st1] by (auto simp: runs_def)
    then have "trace st2 = tr @ (evs1 @ evs2) @ [(Call_dealloc c w (world st2), d)] \<and>
        follows s (ps1 @ ps2) (evs1 @ evs2) \<and> dealloc_outcome c d w (world st2)"
      using e by (simp add: follows_after_completes)
    then have "\<exists>evs w d. trace st2 = tr @ evs @ [(Call_dealloc c w (world st2), d)] \<and>
        follows s (ps1 @ ps2) evs \<and> dealloc_outcome c d w (world st2)"
      by blast
    then show ?thesis using Proceed Returned r(1) by (simp add: runs_def and_then_def)
  next
    case (Crashed x)
    then show ?thesis using Proceed by (simp add: runs_def and_then_def)
  qed
next
  case (Returned s st1)
  then obtain evs w d where
      "s \<noteq> srtp_err_status_ok"
      "trace st1 = tr @ evs @ [(Call_dealloc c w (world st1), d)]"
      "follows s ps1 evs" "dealloc_outcome c d w (world st1)"
    using assms(1) by (auto simp: runs_def)
  then have "s \<noteq> srtp_err_status_ok \<and>
      (\<exists>evs w d. trace st1 = tr @ evs @ [(Call_dealloc c w (world st1), d)] \<and>
         follows s (ps1 @ ps2) evs \<and> dealloc_outcome c d w (world st1))"
    using follows_longer by blast
  then show ?thesis using Returned by (simp add: runs_def and_then_def)
next
  case (Crashed x)
  then show ?thesis by (simp add: runs_def and_then_def)
qed

lemma runs_Proceed: "trace st' = tr \<Longrightarrow> runs c [] tr (Proceed st')"
  by (simp add: runs_def completes_def)

lemma runs_Crashed: "runs c ps tr (Crashed x)"
  by (simp add: runs_def)

lemma fail_with_eq:
  "srtp_cipher_dealloc c (world st) = (d, w') \<Longrightarrow>
   fail_with c s st = Returned s (logged (Call_dealloc c (world st) w') d w' st)"
  by (simp add: fail_with_def call_dealloc_def)

lemma runs_fail_with:
  assumes "s \<noteq> srtp_err_status_ok"
  shows "runs c [] (trace st) (fail_with c s st)"
proof -
  obtain d w' where d: "srtp_cipher_dealloc c (world st) = (d, w')"
    by (cases "srtp_cipher_dealloc c (world st)")
  have "trace (logged (Call_dealloc c (world st) w') d w' st) =
          trace st @ [] @ [(Call_dealloc c (world st) w', d)] \<and>
        follows s [] [] \<and> dealloc_outcome c d (world st) w'"
    using d by (simp add: logged_def dealloc_outcome_iff)
  then show ?thesis using assms unfolding fail_with_eq[OF d] runs_def
    by (auto simp: logged_def)
qed

lemma runs_call_checked:
  assumes "p call" and "trace st1 = trace st @ [(call, s)]"
  shows "runs c [p] (trace st) (checked c s st1)"
proof (cases "s = srtp_err_status_ok")
  case True
  then show ?thesis using assms by (simp add: checked_def runs_def completes_def)
next
  case False
  obtain d w' where d: "srtp_cipher_dealloc c (world st1) = (d, w')"
    by (cases "srtp_cipher_dealloc c (world st1)")
  have "trace (logged (Call_dealloc c (world st1) w') d w' st1) =
          trace st @ [(call, s)] @ [(Call_dealloc c (world st1) w', d)] \<and>
        follows s [p] [(call, s)] \<and> dealloc_outcome c d (world st1) w'"
    using d assms False by (simp add: logged_def dealloc_outcome_iff)
  then show ?thesis using False unfolding checked_def fail_with_eq[OF d] runs_def
    by (auto simp: logged_def)
qed

lemma runs_init_step: "runs c [init_with k] (trace st) (init_step c k st)"
  unfolding init_step_def call_init_def
  by (cases "srtp_cipher_init c k (world st)")
     (simp add: runs_call_checked[where call="Call_init k"] logged_def init_with_def)

lemma runs_some_init_step: "runs c [some_init] (trace st) (init_step c k st)"
  unfolding init_step_def call_init_def
  by (cases "srtp_cipher_init c k (world st)")
     (simp add: runs_call_checked[where call="Call_init k"] logged_def some_init_def)

lemma runs_set_iv_step: "runs c [set_iv_with iv d] (trace st) (set_iv_step c iv d st)"
  unfolding set_iv_step_def call_set_iv_def
  by (cases "srtp_cipher_set_iv c iv d (world st)")
     (simp add: runs_call_checked[where call="Call_set_iv iv d"] logged_def set_iv_with_def)

lemma runs_capacity_step: "runs c [] (trace st) (capacity_step c tc st)"
  by (simp add: capacity_step_def runs_fail_with runs_Proceed)

lemma runs_key_guard: "runs c [] (trace st) (key_guard c tc st)"
  by (simp add: key_guard_def runs_fail_with runs_Proceed)

lemma runs_set_aad_step:
  "runs c (if is_gcm c then [set_aad_with (aad tc) (aad_length_octets tc)] else [])
     (trace st) (set_aad_step c tc st)"
proof (cases c)
  case None
  then show ?thesis by (simp add: set_aad_step_def runs_Crashed)
next
  case (Some ci)
  show ?thesis
  proof (cases "gcm_algorithm ci")
    case True
    then show ?thesis using Some
      unfolding set_aad_step_def call_set_aad_def
      by (cases "srtp_cipher_set_aad c (aad tc) (aad_length_octets tc) (world st)")
         (simp add: runs_call_checked[where call="Call_set_aad (aad tc) (aad_length_octets tc)"]
            logged_def set_aad_with_def is_gcm_def)
  next
    case False
    then show ?thesis using Some by (simp add: set_aad_step_def runs_Proceed is_gcm_def)
  qed
qed

lemma runs_load_plaintext: "runs c [] (trace st) (load_plaintext tc st)"
  by (simp add: load_plaintext_def runs_Proceed runs_Crashed split: sum.splits)

lemma runs_load_ciphertext: "runs c [] (trace st) (load_ciphertext tc st)"
  by (simp add: load_ciphertext_def runs_Proceed runs_Crashed split: sum.splits)

lemma runs_kat_encrypt_step:
  "runs c [encrypt_of (plaintext_length_octets tc)] (trace st) (kat_encrypt_step c tc st)"
proof (cases "srtp_cipher_encrypt c (buffer st) (plaintext_length_octets tc)
               SELF_TEST_BUF_OCTETS (world st)")
  case (fields s out n w)
  show ?thesis using fields
    unfolding kat_encrypt_step_def call_encrypt_def
    by (simp add: runs_call_checked[where call="Call_encrypt (plaintext_length_octets tc) n"]
          logged_def encrypt_of_def runs_Crashed split: sum.splits)
qed

lemma runs_kat_decrypt_step:
  "runs c [decrypt_of (ciphertext_length_octets tc)] (trace st) (kat_decrypt_step c tc st)"
proof (cases "srtp_cipher_decrypt c (buffer st) (ciphertext_length_octets tc)
               SELF_TEST_BUF_OCTETS (world st)")
  case (fields s out n w)
  show ?thesis using fields
    unfolding kat_decrypt_step_def call_decrypt_def
    by (simp add: runs_call_checked[where call="Call_decrypt (ciphertext_length_octets tc) n"]
          logged_def decrypt_of_def runs_Crashed split: sum.splits)
qed

lemma runs_rand_encrypt_step: "runs c [some_encrypt] (trace st) (rand_encrypt_step c st)"
proof (cases "srtp_cipher_encrypt c (buffer st) (plaintext_len st) SELF_TEST_BUF_OCTETS (world st)")
  case (fields s out n w)
  show ?thesis using fields
    unfolding rand_encrypt_step_def call_encrypt_def
    by (simp add: runs_call_checked[where call="Call_encrypt (plaintext_len st) n"]
          logged_def some_encrypt_def runs_Crashed split: sum.splits)
qed

lemma runs_rand_decrypt_step: "runs c [some_decrypt] (trace st) (rand_decrypt_step c st)"
proof (cases "srtp_cipher_decrypt c (buffer st) (encrypted_len st) SELF_TEST_BUF_OCTETS (world st)")
  case (fields s out n w)
  show ?thesis using fields
    unfolding rand_decrypt_step_def call_decrypt_def
    by (simp add: runs_call_checked[where call="Call_decrypt (encrypted_len st) n"]
          logged_def some_decrypt_def runs_Crashed split: sum.splits)
qed

lemma runs_call_checked_then:
  assumes "p call" and "trace st1 = trace st @ [(call, s)]" and "\<And>x. trace (g x) = trace x"
  shows "runs c [p] (trace st) (and_then (checked c s st1) (\<lambda>x. Proceed (g x)))"
proof -
  have a: "runs c [p] (trace st) (checked c s st1)"
    using assms(1,2) by (rule runs_call_checked)
  have "runs c ([p] @ []) (trace st) (and_then (checked c s st1) (\<lambda>x. Proceed (g x)))"
    by (rule runs_and_then[OF a]) (simp add: runs_Proceed assms(3))
  then show ?thesis by simp
qed

lemma runs_kat_get_tag_step:
  "runs c (if is_gcm c then [some_get_tag] else []) (trace st) (kat_get_tag_step c st)"
proof (cases c)
  case None
  then show ?thesis by (simp add: kat_get_tag_step_def runs_Crashed)
next
  case (Some ci)
  show ?thesis
  proof (cases "gcm_algorithm ci")
    case True
    obtain s out n w where g: "srtp_cipher_get_tag c (tag_len st) (world st) = (s, out, n, w)"
      by (cases "srtp_cipher_get_tag c (tag_len st) (world st)")
    show ?thesis using Some True g
      unfolding kat_get_tag_step_def call_get_tag_def
      by (simp add: runs_call_checked_then[where call="Call_get_tag n"]
            logged_def some_get_tag_def is_gcm_def runs_Crashed split: sum.splits)
  next
    case False
    then show ?thesis using Some by (simp add: kat_get_tag_step_def runs_Proceed is_gcm_def)
  qed
qed

lemma runs_rand_get_tag_step:
  "runs c (if is_gcm c then [some_get_tag] else []) (trace st) (rand_get_tag_step c st)"
proof (cases c)
  case None
  then show ?thesis by (simp add: rand_get_tag_step_def runs_Crashed)
next
  case (Some ci)
  show ?thesis
  proof (cases "gcm_algorithm ci")
    case True
    obtain s out n w where g: "srtp_cipher_get_tag c (tag_len st) (world st) = (s, out, n, w)"
      by (cases "srtp_cipher_get_tag c (tag_len st) (world st)")
    show ?thesis using Some True g
      unfolding rand_get_tag_step_def call_get_tag_def
      by (simp add: runs_call_checked_then[where call="Call_get_tag n"]
            logged_def some_get_tag_def is_gcm_def runs_Crashed split: sum.splits)
  next
    case False
    then show ?thesis using Some by (simp add: rand_get_tag_step_def runs_Proceed is_gcm_def)
  qed
qed

lemma runs_kat_check_ciphertext: "runs c [] (trace st) (kat_check_ciphertext c tc st)"
  by (simp add: kat_check_ciphertext_def runs_fail_with runs_Proceed runs_Crashed
      split: sum.splits)

lemma runs_kat_check_plaintext: "runs c [] (trace st) (kat_check_plaintext c tc st)"
  by (simp add: kat_check_plaintext_def runs_fail_with runs_Proceed runs_Crashed
      split: sum.splits)

lemma runs_rand_check: "runs c [] (trace st) (rand_check c st)"
  by (simp add: rand_check_def runs_fail_with runs_Proceed runs_Crashed split: sum.splits)

lemma runs_draw_plaintext: "runs c [] (trace st) (draw_plaintext st)"
  by (simp add: draw_plaintext_def Let_def runs_Proceed runs_Crashed
      split: sum.splits prod.splits)

lemma runs_draw_key_iv: "runs c [] (trace st) (draw_key_iv tc st)"
  by (simp add: draw_key_iv_def Let_def runs_Proceed runs_Crashed
      split: sum.splits prod.splits)

lemma runs_known_answer_encrypt:
  "runs c (kat_encrypt_calls c tc) (trace st) (known_answer_encrypt c tc st)"
proof -
  have "runs c
      ([init_with (key tc)] @ [] @ [] @ [set_iv_with (idx tc) srtp_direction_encrypt] @
       (if is_gcm c then [set_aad_with (aad tc) (aad_length_octets tc)] else []) @
       [encrypt_of (plaintext_length_octets tc)] @
       (if is_gcm c then [some_get_tag] else []) @ [])
      (trace st) (known_answer_encrypt c tc st)"
    unfolding known_answer_encrypt_def
    by (intro runs_and_then runs_init_step runs_capacity_step runs_load_plaintext
          runs_set_iv_step runs_set_aad_step runs_kat_encrypt_step runs_kat_get_tag_step
          runs_kat_check_ciphertext)
  then show ?thesis by (simp add: kat_encrypt_calls_def)
qed

lemma runs_known_answer_decrypt:
  "runs c (kat_decrypt_calls c tc) (trace st) (known_answer_decrypt c tc st)"
proof -
  have "runs c
      ([init_with (key tc)] @ [] @ [] @ [set_iv_with (idx tc) srtp_direction_decrypt] @
       (if is_gcm c then [set_aad_with (aad tc) (aad_length_octets tc)] else []) @
       [decrypt_of (ciphertext_length_octets tc)] @ [])
      (trace st) (known_answer_decrypt c tc st)"
    unfolding known_answer_decrypt_def
    by (intro runs_and_then runs_init_step runs_capacity_step runs_load_ciphertext
          runs_set_iv_step runs_set_aad_step runs_kat_decrypt_step runs_kat_check_plaintext)
  then show ?thesis by (simp add: kat_decrypt_calls_def)
qed

lemma runs_random_trial:
  "runs c (trial_calls c tc) (trace st) (random_trial c tc st)"
proof -
  have "runs c
      ([] @ [] @ [] @ [some_init] @ [set_iv_with (idx tc) srtp_direction_encrypt] @
       (if is_gcm c then [set_aad_with (aad tc) (aad_length_octets tc)] else []) @
       [some_encrypt] @
       (if is_gcm c then [some_get_tag] else []) @
       [some_init] @ [set_iv_with (idx tc) srtp_direction_decrypt] @
       (if is_gcm c then [set_aad_with (aad tc) (aad_length_octets tc)] else []) @
       [some_decrypt] @ [])
      (trace st) (random_trial c tc st)"
    unfolding random_trial_def
    by (intro runs_and_then runs_draw_plaintext runs_key_guard runs_draw_key_iv
          runs_some_init_step runs_set_iv_step runs_set_aad_step runs_rand_encrypt_step
          runs_rand_get_tag_step runs_rand_decrypt_step runs_rand_check)
  then show ?thesis by (simp add: trial_calls_def)
qed

lemma random_trials_Suc:
  "random_trials (Suc n) c tc st = and_then (random_trial c tc st) (random_trials n c tc)"
  by (simp add: and_then_def)

lemma runs_random_trials:
  "runs c (concat (replicate n (trial_calls c tc))) (trace st) (random_trials n c tc st)"
proof (induction n arbitrary: st)
  case 0
  show ?case by (simp add: runs_Proceed)
next
  case (Suc n)
  have "runs c (trial_calls c tc @ concat (replicate n (trial_calls c tc))) (trace st)
          (and_then (random_trial c tc st) (random_trials n c tc))"
    by (rule runs_and_then[OF runs_random_trial Suc.IH])
  then show ?case unfolding random_trials_Suc by simp
qed


lemma closes_and_then:
  assumes "runs c ps1 tr r" and "\<And>st1. closes c ps2 (trace st1) (f st1)"
  shows "closes c (ps1 @ ps2) tr (and_then r f)"
proof (cases r)
  case (Proceed st1)
  then obtain evs1 where e: "trace st1 = tr @ evs1" "completes ps1 evs1"
    using assms(1) by (auto simp: runs_def)
  show ?thesis
  proof (cases "flow_state (f st1)")
    case None
    then show ?thesis using Proceed by (simp add: closes_def and_then_def)
  next
    case (Some st2)
    then obtain body s w w' d where
        b: "trace st2 = trace st1 @ body @ [(Call_dealloc c w w', d)]"
           "follows s ps2 body" "dealloc_outcome c d w w'"
      using assms(2)[of st1] by (auto simp: closes_def lifetime_def)
    have "lifetime c (ps1 @ ps2) ((evs1 @ body) @ [(Call_dealloc c w w', d)])"
      unfolding lifetime_def using follows_after_completes[OF e(2) b(2)] b(3) by blast
    moreover have "trace st2 = tr @ ((evs1 @ body) @ [(Call_dealloc c w w', d)])"
      using e b by simp
    ultimately have "\<exists>evs. trace st2 = tr @ evs \<and> lifetime c (ps1 @ ps2) evs" by blast
    then show ?thesis using Proceed Some by (simp add: closes_def and_then_def)
  qed
next
  case (Returned s st1)
  then obtain evs w d where
      r: "trace st1 = tr @ evs @ [(Call_dealloc c w (world st1), d)]"
         "follows s ps1 evs" "dealloc_outcome c d w (world st1)"
    using assms(1) by (auto simp: runs_def)
  have "lifetime c (ps1 @ ps2) (evs @ [(Call_dealloc c w (world st1), d)])"
    unfolding lifetime_def using follows_longer[OF r(2)] r(3) by blast
  then have "\<exists>es. trace st1 = tr @ es \<and> lifetime c (ps1 @ ps2) es" using r(1) by blast
  then show ?thesis using Returned by (simp add: closes_def and_then_def flow_state_def)
next
  case (Crashed x)
  then show ?thesis by (simp add: closes_def and_then_def flow_state_def)
qed

lemma lifetime_dealloc:
  "srtp_cipher_dealloc c w = (d, w') \<Longrightarrow> lifetime c [] [(Call_dealloc c w w', d)]"
  unfolding lifetime_def dealloc_outcome_iff
  by (intro exI[where x="[]"]) auto

lemma closes_final_Proceed:
  assumes "\<And>x. trace (g x) = trace x"
  shows "closes c [] (trace st) (and_then (final_dealloc c st) (\<lambda>x. Proceed (g x)))"
proof -
  obtain d w' where d: "srtp_cipher_dealloc c (world st) = (d, w')"
    by (cases "srtp_cipher_dealloc c (world st)")
  show ?thesis using d lifetime_dealloc[OF d] assms
    by (auto simp: closes_def final_dealloc_def call_dealloc_def logged_def and_then_def
        flow_state_def)
qed

lemma closes_final_Returned:
  "closes c [] (trace st) (and_then (final_dealloc c st) (\<lambda>x. Returned s x))"
proof -
  obtain d w' where d: "srtp_cipher_dealloc c (world st) = (d, w')"
    by (cases "srtp_cipher_dealloc c (world st)")
  show ?thesis using d lifetime_dealloc[OF d]
    by (auto simp: closes_def final_dealloc_def call_dealloc_def logged_def and_then_def
        flow_state_def)
qed

lemma known_answer_case_record:
  assumes "flow_state (known_answer_case ct tc st) = Some st'"
  shows "\<exists>a c w0 evs.
     srtp_cipher_type_alloc ct (key_length_octets tc) (tag_length_octets tc) (world st) =
       (a, c, w0) \<and>
     trace st' =
       trace st @ (Call_alloc (key_length_octets tc) (tag_length_octets tc) c, a) # evs \<and>
     (if a = srtp_err_status_ok
      then lifetime c (kat_encrypt_calls c tc @ kat_decrypt_calls c tc) evs
      else evs = [])"
proof (cases "srtp_cipher_type_alloc ct (key_length_octets tc) (tag_length_octets tc) (world st)")
  case (fields a c w0)
  let ?st1 = "logged (Call_alloc (key_length_octets tc) (tag_length_octets tc) c) a w0 st"
  show ?thesis
  proof (cases "a = srtp_err_status_ok")
    case False
    then have "trace st' =
        trace st @ [(Call_alloc (key_length_octets tc) (tag_length_octets tc) c, a)]"
      using assms fields
      by (auto simp: known_answer_case_def call_alloc_def logged_def flow_state_def)
    then show ?thesis using fields False by simp
  next
    case True
    have "closes c (kat_encrypt_calls c tc @ kat_decrypt_calls c tc @ []) (trace ?st1)
            (and_then (known_answer_encrypt c tc ?st1) (\<lambda>st.
             and_then (known_answer_decrypt c tc st) (\<lambda>st.
             and_then (final_dealloc c st) (\<lambda>st.
             Proceed (st\<lparr>case_num := case_num st + 1\<rparr>)))))"
      by (intro closes_and_then runs_known_answer_encrypt runs_known_answer_decrypt
            closes_final_Proceed) simp
    moreover have "known_answer_case ct tc st =
            (and_then (known_answer_encrypt c tc ?st1) (\<lambda>st.
             and_then (known_answer_decrypt c tc st) (\<lambda>st.
             and_then (final_dealloc c st) (\<lambda>st.
             Proceed (st\<lparr>case_num := case_num st + 1\<rparr>)))))"
      using fields True by (simp add: known_answer_case_def call_alloc_def)
    ultimately obtain evs where
        "trace st' = trace ?st1 @ evs"
        "lifetime c (kat_encrypt_calls c tc @ kat_decrypt_calls c tc) evs"
      using assms by (auto simp: closes_def)
    then show ?thesis using fields True by (simp add: logged_def)
  qed
qed

lemma random_tests_record:
  assumes "flow_state (random_tests ct (tc # rest) st) = Some st'"
  shows "\<exists>a c w0 evs.
     srtp_cipher_type_alloc ct (key_length_octets tc) (tag_length_octets tc) (world st) =
       (a, c, w0) \<and>
     trace st' =
       trace st @ (Call_alloc (key_length_octets tc) (tag_length_octets tc) c, a) # evs \<and>
     (if a = srtp_err_status_ok
      then lifetime c (concat (replicate NUM_RAND_TESTS (trial_calls c tc))) evs
      else evs = [])"
proof (cases "srtp_cipher_type_alloc ct (key_length_octets tc) (tag_length_octets tc) (world st)")
  case (fields a c w0)
  let ?st1 = "logged (Call_alloc (key_length_octets tc) (tag_length_octets tc) c) a w0 st"
  show ?thesis
  proof (cases "a = srtp_err_status_ok")
    case False
    then have "trace st' =
        trace st @ [(Call_alloc (key_length_octets tc) (tag_length_octets tc) c, a)]"
      using assms fields
      by (auto simp: random_tests_def call_alloc_def logged_def flow_state_def)
    then show ?thesis using fields False by simp
  next
    case True
    have "closes c (concat (replicate NUM_RAND_TESTS (trial_calls c tc)) @ []) (trace ?st1)
            (and_then (random_trials NUM_RAND_TESTS c tc ?st1) (\<lambda>st.
             and_then (final_dealloc c st) (\<lambda>st. Returned srtp_err_status_ok st)))"
      by (intro closes_and_then runs_random_trials closes_final_Returned)
    moreover have "random_tests ct (tc # rest) st =
            (and_then (random_trials NUM_RAND_TESTS c tc ?st1) (\<lambda>st.
             and_then (final_dealloc c st) (\<lambda>st. Returned srtp_err_status_ok st)))"
      using fields True by (simp add: random_tests_def call_alloc_def)
    ultimately obtain evs where
        "trace st' = trace ?st1 @ evs"
        "lifetime c (concat (replicate NUM_RAND_TESTS (trial_calls c tc))) evs"
      using assms by (auto simp: closes_def)
    then show ?thesis using fields True by (simp add: logged_def)
  qed
qed

lemma lifecycle_append: "lifecycle (xs @ ys) = lifecycle xs @ lifecycle ys"
  by (induction xs rule: lifecycle.induct) simp_all

lemma lifecycle_follows:
  assumes "follows s ps evs"
    and "\<And>p call x. p \<in> set ps \<Longrightarrow> p call \<Longrightarrow> lifecycle [(call, x)] = []"
  shows "lifecycle evs = []"
  using assms
proof (induction s ps evs rule: follows.induct)
  case (3 s p ps e es)
  have e: "lifecycle [e] = []" using 3(2) 3(3)[of p "fst e" "snd e"] by simp
  have "lifecycle es = []"
  proof (cases "snd e = srtp_err_status_ok")
    case True
    then have "follows s ps es" using 3(2) by simp
    then show ?thesis using 3(1)[OF True] 3(3) by auto
  next
    case False
    then show ?thesis using 3(2) by simp
  qed
  then show ?case using e lifecycle_append[of "[e]" es] by simp
qed simp_all

lemma script_defs_no_lifecycle:
  "init_with k call \<Longrightarrow> lifecycle [(call, x)] = []"
  "some_init call \<Longrightarrow> lifecycle [(call, x)] = []"
  "set_iv_with iv d call \<Longrightarrow> lifecycle [(call, x)] = []"
  "set_aad_with a n call \<Longrightarrow> lifecycle [(call, x)] = []"
  "encrypt_of n call \<Longrightarrow> lifecycle [(call, x)] = []"
  "some_encrypt call \<Longrightarrow> lifecycle [(call, x)] = []"
  "decrypt_of n call \<Longrightarrow> lifecycle [(call, x)] = []"
  "some_decrypt call \<Longrightarrow> lifecycle [(call, x)] = []"
  "some_get_tag call \<Longrightarrow> lifecycle [(call, x)] = []"
  by (cases call; simp add: init_with_def some_init_def set_iv_with_def set_aad_with_def
        encrypt_of_def some_encrypt_def decrypt_of_def some_decrypt_def some_get_tag_def)+

lemma lifecycle_kat:
  "follows s (kat_encrypt_calls c tc @ kat_decrypt_calls c tc) evs \<Longrightarrow> lifecycle evs = []"
  by (erule lifecycle_follows)
     (auto simp: kat_encrypt_calls_def kat_decrypt_calls_def script_defs_no_lifecycle
        split: if_splits)

lemma lifecycle_trials:
  "follows s (concat (replicate n (trial_calls c tc))) evs \<Longrightarrow> lifecycle evs = []"
  by (erule lifecycle_follows)
     (auto simp: trial_calls_def script_defs_no_lifecycle split: if_splits)

lemma each_released_append:
  "each_released xs \<Longrightarrow> each_released ys \<Longrightarrow> each_released (xs @ ys)"
  by (induction xs rule: each_released.induct)
     (auto split: dispatch_call.splits list.splits)

lemma each_released_lifetime:
  assumes "if a = srtp_err_status_ok then lifetime c ps evs else evs = []"
    and "\<And>s body. follows s ps body \<Longrightarrow> lifecycle body = []"
  shows "each_released (lifecycle ((Call_alloc k t c, a) # evs))"
proof (cases "a = srtp_err_status_ok")
  case False
  then show ?thesis using assms(1) by simp
next
  case True
  then obtain body s w w' d where
      b: "evs = body @ [(Call_dealloc c w w', d)]" "follows s ps body" "dealloc_outcome c d w w'"
    using assms(1) by (auto simp: lifetime_def)
  have "lifecycle body = []" using assms(2)[OF b(2)] .
  then show ?thesis using True b by (simp add: lifecycle_append)
qed

lemma paired_and_then:
  assumes "paired tr r" and "\<And>st'. paired (trace st') (f st')"
  shows "paired tr (and_then r f)"
proof (cases r)
  case (Proceed st1)
  then obtain evs where e: "trace st1 = tr @ evs" "each_released (lifecycle evs)"
    using assms(1) by (auto simp: paired_def flow_state_def)
  show ?thesis
  proof (cases "flow_state (f st1)")
    case None
    then show ?thesis using Proceed by (simp add: paired_def and_then_def)
  next
    case (Some st2)
    then obtain evs' where e': "trace st2 = trace st1 @ evs'" "each_released (lifecycle evs')"
      using assms(2)[of st1] by (auto simp: paired_def)
    have "each_released (lifecycle (evs @ evs'))"
      using e e' by (simp add: lifecycle_append each_released_append)
    moreover have "trace st2 = tr @ (evs @ evs')" using e e' by simp
    ultimately have "\<exists>es. trace st2 = tr @ es \<and> each_released (lifecycle es)" by blast
    then show ?thesis using Proceed Some by (simp add: paired_def and_then_def)
  qed
next
  case (Returned s st1)
  then show ?thesis using assms(1) by (simp add: paired_def and_then_def flow_state_def)
next
  case (Crashed x)
  then show ?thesis by (simp add: paired_def and_then_def flow_state_def)
qed

lemma paired_known_answer_case: "paired (trace st) (known_answer_case ct tc st)"
proof (cases "flow_state (known_answer_case ct tc st)")
  case None
  then show ?thesis by (simp add: paired_def)
next
  case (Some st')
  from known_answer_case_record[OF Some] obtain a c evs where
      t: "trace st' =
        trace st @ (Call_alloc (key_length_octets tc) (tag_length_octets tc) c, a) # evs"
      and l: "if a = srtp_err_status_ok
        then lifetime c (kat_encrypt_calls c tc @ kat_decrypt_calls c tc) evs else evs = []"
    by blast
  have "each_released (lifecycle
      ((Call_alloc (key_length_octets tc) (tag_length_octets tc) c, a) # evs))"
    using l by (rule each_released_lifetime) (rule lifecycle_kat)
  then show ?thesis using Some t by (auto simp: paired_def)
qed

lemma paired_random_tests: "paired (trace st) (random_tests ct tcs st)"
proof (cases tcs)
  case Nil
  then show ?thesis by (simp add: random_tests_def paired_def flow_state_def)
next
  case (Cons tc rest)
  show ?thesis
  proof (cases "flow_state (random_tests ct (tc # rest) st)")
    case None
    then show ?thesis using Cons by (simp add: paired_def)
  next
    case (Some st')
    from random_tests_record[OF Some] obtain a c evs where
        t: "trace st' =
          trace st @ (Call_alloc (key_length_octets tc) (tag_length_octets tc) c, a) # evs"
        and l: "if a = srtp_err_status_ok
          then lifetime c (concat (replicate NUM_RAND_TESTS (trial_calls c tc))) evs
          else evs = []"
      by blast
    have "each_released (lifecycle
        ((Call_alloc (key_length_octets tc) (tag_length_octets tc) c, a) # evs))"
      using l by (rule each_released_lifetime) (rule lifecycle_trials)
    then show ?thesis using Some t Cons by (auto simp: paired_def)
  qed
qed

lemma known_answer_tests_Cons:
  "known_answer_tests ct (tc # rest) st =
     and_then (known_answer_case ct tc st) (known_answer_tests ct rest)"
  by (simp add: and_then_def)

lemma paired_Proceed: "trace st' = tr \<Longrightarrow> paired tr (Proceed st')"
  unfolding paired_def flow_state_def by (auto intro!: exI[where x="[]"])

lemma paired_known_answer_tests: "paired (trace st) (known_answer_tests ct tcs st)"
proof (induction tcs arbitrary: st)
  case Nil
  show ?case by (simp add: paired_Proceed)
next
  case (Cons tc rest)
  show ?case unfolding known_answer_tests_Cons
    by (rule paired_and_then[OF paired_known_answer_case Cons.IH])
qed

lemma paired_srtp_cipher_type_test: "paired (trace st) (srtp_cipher_type_test ct tcs st)"
proof (cases tcs)
  case Nil
  then show ?thesis
    unfolding paired_def flow_state_def srtp_cipher_type_test_def
    by (auto intro!: exI[where x="[]"])
next
  case (Cons tc rest)
  have "paired (trace (st\<lparr>case_num := 0\<rparr>))
          (and_then (known_answer_tests ct tcs (st\<lparr>case_num := 0\<rparr>)) (random_tests ct tcs))"
    by (rule paired_and_then[OF paired_known_answer_tests paired_random_tests])
  then show ?thesis using Cons by (simp add: srtp_cipher_type_test_def)
qed

section \<open>The state a passing step leaves\<close>

lemma and_then_Proceed:
  "(and_then r f = Proceed st') = (\<exists>st1. r = Proceed st1 \<and> f st1 = Proceed st')"
  by (cases r) (auto simp: and_then_def)

lemma checked_Proceed: "(checked c s st = Proceed st') = (s = srtp_err_status_ok \<and> st' = st)"
  by (auto simp: checked_def fail_with_def)

lemma init_step_Proceed:
  "init_step c k st = Proceed st' \<Longrightarrow>
   \<exists>w t. st' = st\<lparr>world := w, trace := t\<rparr> \<and>
     t = trace st @ [(Call_init k, srtp_err_status_ok)]"
  by (auto simp: init_step_def call_init_def checked_Proceed logged_def split: prod.splits)

lemma set_iv_step_Proceed:
  "set_iv_step c iv d st = Proceed st' \<Longrightarrow>
   \<exists>w t. st' = st\<lparr>world := w, trace := t\<rparr> \<and>
     t = trace st @ [(Call_set_iv iv d, srtp_err_status_ok)]"
  by (auto simp: set_iv_step_def call_set_iv_def checked_Proceed logged_def split: prod.splits)


lemma key_guard_Proceed: "key_guard c tc st = Proceed st' \<Longrightarrow> st' = st"
  by (auto simp: key_guard_def fail_with_def split: if_splits)



lemma set_aad_step_Proceed:
  "set_aad_step (Some ci) tc st = Proceed st' \<Longrightarrow>
   (if gcm_algorithm ci
    then \<exists>w t. st' = st\<lparr>world := w, trace := t\<rparr> \<and>
           t = trace st @ [(Call_set_aad (aad tc) (aad_length_octets tc), srtp_err_status_ok)]
    else st' = st)"
  by (auto simp: set_aad_step_def call_set_aad_def checked_Proceed logged_def
      split: prod.splits if_splits)



lemma rand_encrypt_step_Proceed:
  "rand_encrypt_step c st = Proceed st' \<Longrightarrow>
   \<exists>w t b n. st' = st\<lparr>world := w, trace := t, buffer := b, encrypted_len := n\<rparr> \<and>
     t = trace st @ [(Call_encrypt (plaintext_len st) n, srtp_err_status_ok)]"
  by (auto simp: rand_encrypt_step_def call_encrypt_def checked_Proceed logged_def
      split: prod.splits sum.splits)

lemma rand_decrypt_step_Proceed:
  "rand_decrypt_step c st = Proceed st' \<Longrightarrow>
   \<exists>w t b n. st' = st\<lparr>world := w, trace := t, buffer := b, decrypted_len := n\<rparr> \<and>
     t = trace st @ [(Call_decrypt (encrypted_len st) n, srtp_err_status_ok)]"
  by (auto simp: rand_decrypt_step_def call_decrypt_def checked_Proceed logged_def
      split: prod.splits sum.splits)


lemma rand_get_tag_step_Proceed:
  "rand_get_tag_step (Some ci) st = Proceed st' \<Longrightarrow>
   (if gcm_algorithm ci
    then \<exists>w t b m l. st' = st\<lparr>world := w, trace := t, buffer := b, tag_len := m,
             encrypted_len := l\<rparr> \<and>
           t = trace st @ [(Call_get_tag m, srtp_err_status_ok)] \<and> l = encrypted_len st + m
    else st' = st)"
  by (auto simp: rand_get_tag_step_def call_get_tag_def checked_Proceed and_then_Proceed logged_def
      split: prod.splits sum.splits if_splits)



lemma rand_check_Proceed:
  "rand_check c st = Proceed st' \<Longrightarrow> st' = st \<and> decrypted_len st = plaintext_len st"
  by (auto simp: rand_check_def fail_with_def split: if_splits sum.splits)

lemma draw_plaintext_Proceed:
  "draw_plaintext st = Proceed st' \<Longrightarrow>
   \<exists>k b b2 p. st' = st\<lparr>rand_calls := k, buffer := b, buffer2 := b2, plaintext_len := p\<rparr>"
  by (auto simp: draw_plaintext_def Let_def split: prod.splits sum.splits)

lemma draw_key_iv_Proceed:
  "draw_key_iv tc st = Proceed st' \<Longrightarrow>
   \<exists>n k v. st' = st\<lparr>rand_calls := n, rnd_key := k, rnd_iv := v\<rparr>"
  by (auto simp: draw_key_iv_def Let_def split: prod.splits sum.splits)



lemma random_trial_Proceed:
  assumes "random_trial (Some ci) tc st = Proceed st'"
  shows "\<exists>n m p. trace st' = trace st @
     [(Call_init (rnd_key st'), srtp_err_status_ok),
      (Call_set_iv (idx tc) srtp_direction_encrypt, srtp_err_status_ok)] @
     (if gcm_algorithm ci
      then [(Call_set_aad (aad tc) (aad_length_octets tc), srtp_err_status_ok)] else []) @
     [(Call_encrypt (plaintext_len st') n, srtp_err_status_ok)] @
     (if gcm_algorithm ci then [(Call_get_tag m, srtp_err_status_ok)] else []) @
     [(Call_init (rnd_key st'), srtp_err_status_ok),
      (Call_set_iv (idx tc) srtp_direction_decrypt, srtp_err_status_ok)] @
     (if gcm_algorithm ci
      then [(Call_set_aad (aad tc) (aad_length_octets tc), srtp_err_status_ok)] else []) @
     [(Call_decrypt (encrypted_len st') p, srtp_err_status_ok)] \<and>
     encrypted_len st' = (if gcm_algorithm ci then n + m else n) \<and>
     decrypted_len st' = p \<and> p = plaintext_len st'"
proof -
  from assms obtain s1 s2 s3 s4 s5 s6 s7 s8 s9 s10 s11 s12 where steps:
      "draw_plaintext st = Proceed s1"
      "key_guard (Some ci) tc s1 = Proceed s2"
      "draw_key_iv tc s2 = Proceed s3"
      "init_step (Some ci) (rnd_key s3) s3 = Proceed s4"
      "set_iv_step (Some ci) (idx tc) srtp_direction_encrypt s4 = Proceed s5"
      "set_aad_step (Some ci) tc s5 = Proceed s6"
      "rand_encrypt_step (Some ci) s6 = Proceed s7"
      "rand_get_tag_step (Some ci) s7 = Proceed s8"
      "init_step (Some ci) (rnd_key s8) s8 = Proceed s9"
      "set_iv_step (Some ci) (idx tc) srtp_direction_decrypt s9 = Proceed s10"
      "set_aad_step (Some ci) tc s10 = Proceed s11"
      "rand_decrypt_step (Some ci) s11 = Proceed s12"
      "rand_check (Some ci) s12 = Proceed st'"
    unfolding random_trial_def and_then_Proceed by blast
  from draw_plaintext_Proceed[OF steps(1)] obtain k1 b1 c1 p1 where
      s1: "s1 = st\<lparr>rand_calls := k1, buffer := b1, buffer2 := c1, plaintext_len := p1\<rparr>"
    by blast
  have s2: "s2 = s1" using key_guard_Proceed[OF steps(2)] .
  from draw_key_iv_Proceed[OF steps(3)] obtain n3 k3 v3 where
      s3: "s3 = s2\<lparr>rand_calls := n3, rnd_key := k3, rnd_iv := v3\<rparr>"
    by blast
  have f3: "trace s3 = trace st" "rnd_key s3 = k3" "plaintext_len s3 = p1"
    using s1 s2 s3 by simp_all
  from init_step_Proceed[OF steps(4)] obtain w4 t4 where
      s4: "s4 = s3\<lparr>world := w4, trace := t4\<rparr>"
      and t4: "t4 = trace s3 @ [(Call_init (rnd_key s3), srtp_err_status_ok)]"
    by blast
  have f4: "trace s4 = t4" "rnd_key s4 = k3" "plaintext_len s4 = p1"
    using s4 f3 by simp_all
  from set_iv_step_Proceed[OF steps(5)] obtain w5 t5 where
      s5: "s5 = s4\<lparr>world := w5, trace := t5\<rparr>"
      and t5: "t5 = trace s4 @
             [(Call_set_iv (idx tc) srtp_direction_encrypt, srtp_err_status_ok)]"
    by blast
  have f5: "trace s5 = t5" "rnd_key s5 = k3" "plaintext_len s5 = p1"
    using s5 f4 by simp_all
  obtain t6 where f6: "trace s6 = t6" "rnd_key s6 = k3" "plaintext_len s6 = p1"
      and t6: "t6 = t5 @ (if gcm_algorithm ci
             then [(Call_set_aad (aad tc) (aad_length_octets tc), srtp_err_status_ok)] else [])"
    using set_aad_step_Proceed[OF steps(6)] f5 by (auto split: if_splits)
  from rand_encrypt_step_Proceed[OF steps(7)] obtain w7 t7 b7 n where
      s7: "s7 = s6\<lparr>world := w7, trace := t7, buffer := b7, encrypted_len := n\<rparr>"
      and t7: "t7 = trace s6 @ [(Call_encrypt (plaintext_len s6) n, srtp_err_status_ok)]"
    by blast
  have f7: "trace s7 = t7" "rnd_key s7 = k3" "plaintext_len s7 = p1" "encrypted_len s7 = n"
    using s7 f6 by simp_all
  obtain t8 m where
      f8: "trace s8 = t8" "rnd_key s8 = k3" "plaintext_len s8 = p1"
          "encrypted_len s8 = (if gcm_algorithm ci then n + m else n)"
      and t8: "t8 = t7 @ (if gcm_algorithm ci then [(Call_get_tag m, srtp_err_status_ok)] else [])"
    using rand_get_tag_step_Proceed[OF steps(8)] f7 by (auto split: if_splits)
  from init_step_Proceed[OF steps(9)] obtain w9 t9 where
      s9: "s9 = s8\<lparr>world := w9, trace := t9\<rparr>"
      and t9: "t9 = trace s8 @ [(Call_init (rnd_key s8), srtp_err_status_ok)]"
    by blast
  have f9: "trace s9 = t9" "rnd_key s9 = k3" "plaintext_len s9 = p1"
      "encrypted_len s9 = encrypted_len s8"
    using s9 f8 by simp_all
  from set_iv_step_Proceed[OF steps(10)] obtain w10 t10 where
      s10: "s10 = s9\<lparr>world := w10, trace := t10\<rparr>"
      and t10: "t10 = trace s9 @
             [(Call_set_iv (idx tc) srtp_direction_decrypt, srtp_err_status_ok)]"
    by blast
  have f10: "trace s10 = t10" "rnd_key s10 = k3" "plaintext_len s10 = p1"
      "encrypted_len s10 = encrypted_len s8"
    using s10 f9 by simp_all
  obtain t11 where f11: "trace s11 = t11" "rnd_key s11 = k3" "plaintext_len s11 = p1"
      "encrypted_len s11 = encrypted_len s8"
      and t11: "t11 = t10 @ (if gcm_algorithm ci
             then [(Call_set_aad (aad tc) (aad_length_octets tc), srtp_err_status_ok)] else [])"
    using set_aad_step_Proceed[OF steps(11)] f10 by (auto split: if_splits)
  from rand_decrypt_step_Proceed[OF steps(12)] obtain w12 t12 b12 p where
      s12: "s12 = s11\<lparr>world := w12, trace := t12, buffer := b12, decrypted_len := p\<rparr>"
      and t12: "t12 = trace s11 @ [(Call_decrypt (encrypted_len s11) p, srtp_err_status_ok)]"
    by blast
  have f12: "trace s12 = t12" "rnd_key s12 = k3" "plaintext_len s12 = p1"
      "encrypted_len s12 = encrypted_len s8" "decrypted_len s12 = p"
    using s12 f11 by simp_all
  have e: "st' = s12" "decrypted_len s12 = plaintext_len s12"
    using rand_check_Proceed[OF steps(13)] by simp_all
  have "trace st' = trace st @
     [(Call_init (rnd_key st'), srtp_err_status_ok),
      (Call_set_iv (idx tc) srtp_direction_encrypt, srtp_err_status_ok)] @
     (if gcm_algorithm ci
      then [(Call_set_aad (aad tc) (aad_length_octets tc), srtp_err_status_ok)] else []) @
     [(Call_encrypt (plaintext_len st') n, srtp_err_status_ok)] @
     (if gcm_algorithm ci then [(Call_get_tag m, srtp_err_status_ok)] else []) @
     [(Call_init (rnd_key st'), srtp_err_status_ok),
      (Call_set_iv (idx tc) srtp_direction_decrypt, srtp_err_status_ok)] @
     (if gcm_algorithm ci
      then [(Call_set_aad (aad tc) (aad_length_octets tc), srtp_err_status_ok)] else []) @
     [(Call_decrypt (encrypted_len st') p, srtp_err_status_ok)]"
    unfolding e(1) f12 t12 f11 t11 t10 f9 t9 f8 t8 t7 f6 t6 t5 f4 t4 f3 by simp
  moreover have "encrypted_len st' = (if gcm_algorithm ci then n + m else n)"
    unfolding e(1) f12 f8 by simp
  moreover have "decrypted_len st' = p" "p = plaintext_len st'"
    using e f12 by simp_all
  ultimately show ?thesis by blast
qed
section \<open>Loops, the random draw and what a trial leaves untouched\<close>

lemma keeps_and_then:
  assumes "keeps g st r" and "\<And>st1. keeps g st1 (f st1)"
  shows "keeps g st (and_then r f)"
proof (cases r)
  case (Proceed st1)
  then show ?thesis using assms(1) assms(2)[of st1]
    by (auto simp: keeps_def and_then_def flow_state_def split: option.splits flow.splits)
next
  case (Returned s st1)
  then show ?thesis using assms(1) by (simp add: keeps_def and_then_def)
next
  case (Crashed x)
  then show ?thesis by (simp add: keeps_def and_then_def flow_state_def)
qed

lemmas flow_splits = prod.splits option.splits sum.splits flow.splits if_splits

lemma keeps_init_step: "keeps plaintext_len st (init_step c k st)"
  by (auto simp: keeps_def flow_state_def init_step_def checked_def fail_with_def call_init_def
        call_dealloc_def logged_def split: flow_splits)

lemma keeps_set_iv_step: "keeps plaintext_len st (set_iv_step c iv d st)"
  by (auto simp: keeps_def flow_state_def set_iv_step_def checked_def fail_with_def
        call_set_iv_def call_dealloc_def logged_def split: flow_splits)

lemma keeps_key_guard: "keeps plaintext_len st (key_guard c tc st)"
  by (auto simp: keeps_def flow_state_def key_guard_def fail_with_def
        call_dealloc_def logged_def split: flow_splits)

lemma keeps_draw_key_iv: "keeps plaintext_len st (draw_key_iv tc st)"
  by (auto simp: keeps_def flow_state_def draw_key_iv_def split: flow_splits)

lemma keeps_set_aad_step: "keeps plaintext_len st (set_aad_step c tc st)"
  by (auto simp: keeps_def flow_state_def set_aad_step_def checked_def fail_with_def
        call_set_aad_def call_dealloc_def logged_def split: flow_splits)

lemma keeps_rand_encrypt_step: "keeps plaintext_len st (rand_encrypt_step c st)"
  by (auto simp: keeps_def flow_state_def rand_encrypt_step_def checked_def fail_with_def
        call_encrypt_def call_dealloc_def logged_def split: flow_splits)

lemma keeps_rand_decrypt_step: "keeps plaintext_len st (rand_decrypt_step c st)"
  by (auto simp: keeps_def flow_state_def rand_decrypt_step_def checked_def fail_with_def
        call_decrypt_def call_dealloc_def logged_def split: flow_splits)

lemma keeps_rand_get_tag_step: "keeps plaintext_len st (rand_get_tag_step c st)"
  by (auto simp: keeps_def flow_state_def rand_get_tag_step_def checked_def fail_with_def
        and_then_def call_get_tag_def call_dealloc_def logged_def split: flow_splits)

lemma keeps_rand_check: "keeps plaintext_len st (rand_check c st)"
  by (auto simp: keeps_def flow_state_def rand_check_def fail_with_def
        call_dealloc_def logged_def split: flow_splits)

lemmas keeps_steps = keeps_init_step keeps_set_iv_step keeps_key_guard keeps_draw_key_iv
  keeps_set_aad_step keeps_rand_encrypt_step keeps_rand_decrypt_step keeps_rand_get_tag_step
  keeps_rand_check

lemma rand_for_tests_result:
  "srtp_cipher_rand_for_tests n rnd k = (os, k') \<Longrightarrow> length os = n \<and> k' = k + n"
proof (induction n arbitrary: k os k')
  case 0
  then show ?case by simp
next
  case (Suc n)
  obtain rest k1 where r: "srtp_cipher_rand_for_tests n rnd (Suc k) = (rest, k1)"
    by (cases "srtp_cipher_rand_for_tests n rnd (Suc k)")
  from Suc.IH[OF r] Suc.prems r show ?case by (auto simp: Let_def)
qed

lemma length_rand_for_tests: "length (fst (srtp_cipher_rand_for_tests n rnd k)) = n"
  using rand_for_tests_result[of n rnd k] by (cases "srtp_cipher_rand_for_tests n rnd k") simp

lemma copy_octets_ok:
  "n \<le> length src \<Longrightarrow> n \<le> length dst \<Longrightarrow>
   \<exists>d. copy_octets k n src dst = Inr d \<and> length d = length dst"
proof (induction k n src dst rule: copy_octets.induct)
  case (1 k n src dst)
  show ?case
  proof (cases "k < n")
    case True
    then have "k < length dst" "k < length src" using 1 by simp_all
    then show ?thesis using 1 True by (subst copy_octets.simps) simp
  next
    case False
    then show ?thesis by (subst copy_octets.simps) simp
  qed
qed

lemma plaintext_len_less: "unat ((r :: 32 word) mod of_nat (SELF_TEST_BUF_OCTETS - 64)) < 64"
proof -
  have "(r mod 64) < 64" by (rule word_mod_less_divisor) simp
  then have "unat (r mod 64) < unat (64 :: 32 word)" by (simp add: word_less_nat_alt)
  then show ?thesis by (simp add: SELF_TEST_BUF_OCTETS_def)
qed

lemma draw_plaintext_ok:
  assumes "locals_ok st"
  shows "\<exists>st1. draw_plaintext st = Proceed st1 \<and> rnd_key st1 = rnd_key st \<and>
           rnd_iv st1 = rnd_iv st \<and> trace st1 = trace st \<and> world st1 = world st \<and>
           locals_ok st1"
proof -
  obtain r n1 where r: "srtp_cipher_rand_u32_for_tests (big_endian st) (rand_src st) (rand_calls st) = (r, n1)"
    by (cases "srtp_cipher_rand_u32_for_tests (big_endian st) (rand_src st) (rand_calls st)")
  define plen where "plen = unat (r mod of_nat (SELF_TEST_BUF_OCTETS - 64))"
  obtain os n2 where os: "srtp_cipher_rand_for_tests plen (rand_src st) n1 = (os, n2)"
    by (cases "srtp_cipher_rand_for_tests plen (rand_src st) n1")
  have plen: "plen < 64" unfolding plen_def by (rule plaintext_len_less)
  have los: "length os = plen" using length_rand_for_tests[of plen "rand_src st" n1] os by simp
  have lb: "length (buffer st) = 128" "length (buffer2 st) = 128"
    using assms by (simp_all add: locals_ok_def SELF_TEST_BUF_OCTETS_def)
  obtain b where b: "write_octets 0 os (buffer st) = Inr b" "length b = length (buffer st)"
    using los plen lb by (simp add: write_octets_def)
  obtain b2 where b2: "copy_octets 0 plen b (buffer2 st) = Inr b2" "length b2 = length (buffer2 st)"
    using copy_octets_ok[of plen b "buffer2 st" 0] plen b lb by auto
  show ?thesis
    using r os b b2 assms unfolding draw_plaintext_def Let_def
    by (simp add: locals_ok_def plen_def[symmetric])
qed

lemma draw_plaintext_len:
  "draw_plaintext st = Proceed st1 \<Longrightarrow>
   plaintext_len st1 =
     unat (fst (srtp_cipher_rand_u32_for_tests (big_endian st) (rand_src st) (rand_calls st))
             mod of_nat (SELF_TEST_BUF_OCTETS - 64))"
  by (auto simp: draw_plaintext_def Let_def split: prod.splits sum.splits)

lemma keeps_after_draw:
  "keeps plaintext_len st1
     (and_then (key_guard c tc st1) (\<lambda>st.
      and_then (draw_key_iv tc st) (\<lambda>st.
      and_then (init_step c (rnd_key st) st) (\<lambda>st.
      and_then (set_iv_step c (idx tc) srtp_direction_encrypt st) (\<lambda>st.
      and_then (set_aad_step c tc st) (\<lambda>st.
      and_then (rand_encrypt_step c st) (\<lambda>st.
      and_then (rand_get_tag_step c st) (\<lambda>st.
      and_then (init_step c (rnd_key st) st) (\<lambda>st.
      and_then (set_iv_step c (idx tc) srtp_direction_decrypt st) (\<lambda>st.
      and_then (set_aad_step c tc st) (\<lambda>st.
      and_then (rand_decrypt_step c st) (\<lambda>st.
      rand_check c st))))))))))))"
  by (intro keeps_and_then keeps_steps)

lemma random_trial_plaintext_len:
  assumes "flow_state (random_trial c tc st) = Some st'"
  shows "plaintext_len st' =
     unat (fst (srtp_cipher_rand_u32_for_tests (big_endian st) (rand_src st) (rand_calls st))
             mod of_nat (SELF_TEST_BUF_OCTETS - 64))"
proof (cases "draw_plaintext st")
  case (Proceed st1)
  have "plaintext_len st' = plaintext_len st1"
    using assms keeps_after_draw[of st1 c tc] Proceed
    by (simp add: random_trial_def and_then_def keeps_def)
  then show ?thesis using draw_plaintext_len[OF Proceed] by simp
next
  case (Returned s st1)
  then show ?thesis by (simp add: draw_plaintext_def Let_def split: prod.splits sum.splits)
next
  case (Crashed x)
  then show ?thesis using assms by (simp add: random_trial_def and_then_def flow_state_def)
qed

lemma rand_for_tests_const:
  "srtp_cipher_rand_for_tests n (\<lambda>i. v) k = (replicate n (word_of_int (v AND 0xff)), k + n)"
  by (induction n arbitrary: k) (simp_all add: Let_def)

lemma locals_ok_sample: "locals_ok sample_locals"
  by (simp add: locals_ok_def sample_locals_def SELF_TEST_BUF_OCTETS_def MAX_KEY_LEN_def)

lemma copy_octets_eq:
  "k \<le> n \<Longrightarrow> n \<le> length src \<Longrightarrow> n \<le> length dst \<Longrightarrow>
   copy_octets k n src dst = Inr (take k dst @ take (n - k) (drop k src) @ drop n dst)"
proof (induction k n src dst rule: copy_octets.induct)
  case (1 k n src dst)
  show ?case
  proof (cases "k < n")
    case True
    then have kd: "k < length dst" and ks: "k < length src" using 1 by simp_all
    have step: "copy_octets k n src dst = copy_octets (Suc k) n src (dst[k := src ! k])"
      using True kd ks by (subst copy_octets.simps) simp
    have ih: "copy_octets (Suc k) n src (dst[k := src ! k]) =
        Inr (take (Suc k) (dst[k := src ! k]) @ take (n - Suc k) (drop (Suc k) src) @
             drop n (dst[k := src ! k]))"
      using "1.IH" True kd ks "1.prems" by simp
    have t: "take (Suc k) (dst[k := src ! k]) = take k dst @ [src ! k]"
      using kd by (simp add: take_Suc_conv_app_nth)
    have d: "drop n (dst[k := src ! k]) = drop n dst" using True by simp
    have m: "take (n - k) (drop k src) = src ! k # take (n - Suc k) (drop (Suc k) src)"
      using True ks by (metis Cons_nth_drop_Suc Suc_diff_Suc take_Suc_Cons)
    show ?thesis unfolding step ih t d m by simp
  next
    case False
    then have "k = n" using 1 by simp
    then show ?thesis by (subst copy_octets.simps) simp
  qed
qed

lemma copy_octets_0:
  "n \<le> length src \<Longrightarrow> n \<le> length dst \<Longrightarrow>
   copy_octets 0 n src dst = Inr (take n src @ drop n dst)"
  using copy_octets_eq[of 0 n src dst] by simp

lemma compare_all_eq:
  "k \<le> n \<Longrightarrow> n \<le> length a \<Longrightarrow> n \<le> length b \<Longrightarrow>
   compare_all k n a b status =
     Inr (if take (n - k) (drop k a) = take (n - k) (drop k b) then status
          else srtp_err_status_algo_fail)"
proof (induction k n a b status rule: compare_all.induct)
  case (1 k n a b status)
  show ?case
  proof (cases "k < n")
    case True
    then have ka: "k < length a" and kb: "k < length b" using 1 by simp_all
    have da: "take (n - k) (drop k a) = a ! k # take (n - Suc k) (drop (Suc k) a)"
      using True ka by (metis Cons_nth_drop_Suc Suc_diff_Suc take_Suc_Cons)
    have db: "take (n - k) (drop k b) = b ! k # take (n - Suc k) (drop (Suc k) b)"
      using True kb by (metis Cons_nth_drop_Suc Suc_diff_Suc take_Suc_Cons)
    have "compare_all k n a b status =
            compare_all (Suc k) n a b
              (if a ! k \<noteq> b ! k then srtp_err_status_algo_fail else status)"
      using True ka kb by (subst compare_all.simps) simp
    then show ?thesis using "1.IH"[OF True] True ka kb "1.prems" da db by simp
  next
    case False
    then have "k = n" using 1 by simp
    then show ?thesis by (subst compare_all.simps) simp
  qed
qed

lemma compare_until_mismatch_eq:
  "k \<le> n \<Longrightarrow> n \<le> length a \<Longrightarrow> n \<le> length b \<Longrightarrow>
   compare_until_mismatch k n a b status =
     Inr (if take (n - k) (drop k a) = take (n - k) (drop k b) then status
          else srtp_err_status_algo_fail)"
proof (induction k n a b status rule: compare_until_mismatch.induct)
  case (1 k n a b status)
  show ?case
  proof (cases "k < n")
    case True
    then have ka: "k < length a" and kb: "k < length b" using 1 by simp_all
    have da: "take (n - k) (drop k a) = a ! k # take (n - Suc k) (drop (Suc k) a)"
      using True ka by (metis Cons_nth_drop_Suc Suc_diff_Suc take_Suc_Cons)
    have db: "take (n - k) (drop k b) = b ! k # take (n - Suc k) (drop (Suc k) b)"
      using True kb by (metis Cons_nth_drop_Suc Suc_diff_Suc take_Suc_Cons)
    show ?thesis
    proof (cases "a ! k = b ! k")
      case same: True
      have "compare_until_mismatch k n a b status = compare_until_mismatch (Suc k) n a b status"
        using True ka kb same by (subst compare_until_mismatch.simps) simp
      then show ?thesis using "1.IH" True ka kb "1.prems" da db same by simp
    next
      case False
      have "compare_until_mismatch k n a b status = Inr srtp_err_status_algo_fail"
        using True ka kb False by (subst compare_until_mismatch.simps) simp
      then show ?thesis using da db False by simp
    qed
  next
    case False
    then have "k = n" using 1 by simp
    then show ?thesis by (subst compare_until_mismatch.simps) simp
  qed
qed

lemma replicate_4: "replicate 4 x = [x, x, x, x]"
  by (simp add: numeral_eq_Suc)

lemma rand_u32_const:
  "srtp_cipher_rand_u32_for_tests False (\<lambda>i. 3) k = (0x03030303, k + 4)"
  by (simp add: srtp_cipher_rand_u32_for_tests_def rand_for_tests_const u32_of_octets_def
      replicate_4)

lemma plen3: "unat ((0x03030303 :: 32 word) mod of_nat (SELF_TEST_BUF_OCTETS - 64)) = 3"
  by (simp add: SELF_TEST_BUF_OCTETS_def)


section \<open>Running the definitions on the samples\<close>

lemmas dispatch_defs = srtp_cipher_type_alloc_def srtp_cipher_dealloc_def srtp_cipher_init_def
  srtp_cipher_set_iv_def srtp_cipher_encrypt_def srtp_cipher_decrypt_def srtp_cipher_get_tag_def
  srtp_cipher_set_aad_def

lemmas call_defs = call_alloc_def call_dealloc_def call_init_def call_set_iv_def
  call_set_aad_def call_encrypt_def call_decrypt_def call_get_tag_def logged_def

lemmas step_defs = fail_with_def checked_def init_step_def capacity_step_def set_iv_step_def
  gcm_algorithm_def set_aad_step_def load_plaintext_def kat_encrypt_step_def
  kat_get_tag_step_def kat_check_ciphertext_def load_ciphertext_def kat_decrypt_step_def
  kat_check_plaintext_def final_dealloc_def key_guard_def draw_key_iv_def
  rand_encrypt_step_def rand_get_tag_step_def rand_decrypt_step_def rand_check_def

lemmas eval_simps = and_then_def write_octets_def copy_octets_0 compare_all_eq
  compare_until_mismatch_eq rand_for_tests_const SELF_TEST_BUF_OCTETS_def MAX_KEY_LEN_def
  flow_state_def flow_status_def

lemma random_trials_first:
  "random_trials NUM_RAND_TESTS c tc st =
     (case random_trial c tc st of
        Proceed st' \<Rightarrow> random_trials 127 c tc st'
      | Returned status st' \<Rightarrow> Returned status st'
      | Crashed x \<Rightarrow> Crashed x)"
proof -
  have "NUM_RAND_TESTS = Suc 127" by (simp add: NUM_RAND_TESTS_def)
  then show ?thesis using random_trials.simps(2)[of 127 c tc st] by simp
qed

lemmas engine_defs = srtp_cipher_type_test_def known_answer_case_def known_answer_encrypt_def
  known_answer_decrypt_def random_tests_def random_trials_first random_trial_def
  draw_plaintext_def rand_u32_const plen3

lemma flow_Proceed_iff: "(r = Proceed x) = (flow_state r = Some x \<and> flow_status r = None)"
  by (cases r) (simp_all add: flow_state_def flow_status_def)


lemma sample_draw:
  "draw_plaintext sample_locals =
     Proceed (sample_locals\<lparr>rand_calls := 7, buffer := replicate 3 3 @ replicate 125 0,
                buffer2 := replicate 3 3 @ replicate 125 0, plaintext_len := 3\<rparr>)"
  by (simp add: draw_plaintext_def sample_locals_def rand_u32_const plen3 rand_for_tests_const
      write_octets_def copy_octets_0)

lemma sample_long_key_trial:
  "flow_status (random_trial (Some (copy_cipher_instance alg tag 65))
      (sample_vector\<lparr>key_length_octets := 65\<rparr>) sample_locals) =
     Some srtp_err_status_cant_check \<and>
   map_option rnd_key (flow_state (random_trial (Some (copy_cipher_instance alg tag 65))
      (sample_vector\<lparr>key_length_octets := 65\<rparr>) sample_locals)) = Some (replicate 64 0) \<and>
   map_option trace (flow_state (random_trial (Some (copy_cipher_instance alg tag 65))
      (sample_vector\<lparr>key_length_octets := 65\<rparr>) sample_locals)) =
     Some [(Call_dealloc (Some (copy_cipher_instance alg tag 65)) 0 0, srtp_err_status_ok)] \<and>
   map_option plaintext_len (flow_state (random_trial (Some (copy_cipher_instance alg tag 65))
      (sample_vector\<lparr>key_length_octets := 65\<rparr>) sample_locals)) = Some 3"
  apply (simp add: random_trial_def sample_draw)
  apply (simp add: sample_locals_def sample_vector_def dispatch_defs call_defs step_defs eval_simps)
  done

section \<open>Properties of the self-test\<close>

text \<open>
  C4. With an empty vector list the self-test returns cannot-verify at once: the state it
  returns is the one it was given, so no call was recorded (no allocation, no operation of
  the concrete cipher) and the cipher's memory is as before.
\<close>

theorem empty_vector_list_cant_check:
  "srtp_cipher_type_test ct [] st = Returned srtp_err_status_cant_check st \<and>
   (test_data t = [] \<longrightarrow>
      srtp_cipher_type_self_test (Some t) st = Returned srtp_err_status_cant_check st)"
  by (simp add: srtp_cipher_type_test_def srtp_cipher_type_self_test_def)

theorem empty_vector_list_cant_check_witness:
  "test_data (copy_cipher SRTP_AES_ICM_128 None) = [] \<and>
   srtp_cipher_type_self_test (Some (copy_cipher SRTP_AES_ICM_128 None))
       \<lparr>world = 0, trace = [], rand_src = (\<lambda>n. 0), rand_calls = 0, big_endian = False,
        buffer = [], buffer2 = [], rnd_key = [], rnd_iv = [], tag_len = 0, len = 0,
        case_num = 0, plaintext_len = 0, encrypted_len = 0, decrypted_len = 0\<rparr> =
     Returned srtp_err_status_cant_check
       \<lparr>world = 0, trace = [], rand_src = (\<lambda>n. 0), rand_calls = 0, big_endian = False,
        buffer = [], buffer2 = [], rnd_key = [], rnd_iv = [], tag_len = 0, len = 0,
        case_num = 0, plaintext_len = 0, encrypted_len = 0, decrypted_len = 0\<rparr>"
  using empty_vector_list_cant_check
          [of "Some (copy_cipher SRTP_AES_ICM_128 None)"
              "\<lparr>world = 0, trace = [], rand_src = (\<lambda>n. 0), rand_calls = 0, big_endian = False,
                buffer = [], buffer2 = [], rnd_key = [], rnd_iv = [], tag_len = 0, len = 0,
                case_num = 0, plaintext_len = 0, encrypted_len = 0, decrypted_len = 0\<rparr>"
              "copy_cipher SRTP_AES_ICM_128 None"]
  by simp



lemma init_ok_instance:
  "srtp_cipher_init c k w = (srtp_err_status_ok, w1) \<Longrightarrow>
   \<exists>ci t. c = Some ci \<and> cipher_type ci = Some t"
  by (auto simp: srtp_cipher_init_def split: option.splits)

lemma oversized_direction:
  assumes big: "SELF_TEST_BUF_OCTETS < ciphertext_length_octets tc"
    and i: "srtp_cipher_init c (key tc) (world st) = (srtp_err_status_ok, w1)"
  shows "\<exists>ci t d w2 st' st''. c = Some ci \<and> cipher_type ci = Some t \<and>
           dealloc t (state ci) w1 = (d, w2) \<and>
           known_answer_encrypt c tc st = Returned srtp_err_status_bad_param st' \<and>
           known_answer_decrypt c tc st = Returned srtp_err_status_bad_param st'' \<and>
           trace st' = trace st @
             [(Call_init (key tc), srtp_err_status_ok), (Call_dealloc c w1 w2, d)] \<and>
           world st' = w2 \<and> buffer st' = buffer st \<and>
           trace st'' = trace st' \<and> world st'' = w2 \<and> buffer st'' = buffer st"
proof -
  from init_ok_instance[OF i] obtain ci t where c: "c = Some ci" "cipher_type ci = Some t"
    by blast
  obtain d w2 where d: "dealloc t (state ci) w1 = (d, w2)" by (cases "dealloc t (state ci) w1")
  have dd: "srtp_cipher_dealloc c w1 = (d, w2)" using c d by (simp add: srtp_cipher_dealloc_def)
  let ?st' = "st\<lparr>world := w2, trace := trace st @
      [(Call_init (key tc), srtp_err_status_ok), (Call_dealloc c w1 w2, d)]\<rparr>"
  have "known_answer_encrypt c tc st = Returned srtp_err_status_bad_param ?st'"
    using big i dd
    by (simp add: known_answer_encrypt_def and_then_def init_step_def capacity_step_def
          call_init_def checked_def fail_with_def call_dealloc_def logged_def)
  moreover have "known_answer_decrypt c tc st = Returned srtp_err_status_bad_param ?st'"
    using big i dd
    by (simp add: known_answer_decrypt_def and_then_def init_step_def capacity_step_def
          call_init_def checked_def fail_with_def call_dealloc_def logged_def)
  ultimately show ?thesis using c d by simp
qed

lemma oversized_vector:
  assumes big: "SELF_TEST_BUF_OCTETS < ciphertext_length_octets tc"
    and a: "srtp_cipher_type_alloc ct (key_length_octets tc) (tag_length_octets tc) (world st) =
          (srtp_err_status_ok, c, w0)"
    and i: "srtp_cipher_init c (key tc) w0 = (srtp_err_status_ok, w1)"
  shows "\<exists>ci t d w2 st'. c = Some ci \<and> cipher_type ci = Some t \<and>
           dealloc t (state ci) w1 = (d, w2) \<and>
           known_answer_case ct tc st = Returned srtp_err_status_bad_param st' \<and>
           known_answer_tests ct (tc # rest) st = Returned srtp_err_status_bad_param st' \<and>
           trace st' = trace st @
             [(Call_alloc (key_length_octets tc) (tag_length_octets tc) c, srtp_err_status_ok),
              (Call_init (key tc), srtp_err_status_ok), (Call_dealloc c w1 w2, d)] \<and>
           world st' = w2 \<and> buffer st' = buffer st"
proof -
  let ?st1 = "logged (Call_alloc (key_length_octets tc) (tag_length_octets tc) c)
                srtp_err_status_ok w0 st"
  have "srtp_cipher_init c (key tc) (world ?st1) = (srtp_err_status_ok, w1)"
    using i by (simp add: logged_def)
  from oversized_direction[OF big this] obtain ci t d w2 st' where
      e: "c = Some ci" "cipher_type ci = Some t" "dealloc t (state ci) w1 = (d, w2)"
         "known_answer_encrypt c tc ?st1 = Returned srtp_err_status_bad_param st'"
         "trace st' = trace ?st1 @
            [(Call_init (key tc), srtp_err_status_ok), (Call_dealloc c w1 w2, d)]"
         "world st' = w2" "buffer st' = buffer ?st1"
    by blast
  have "known_answer_case ct tc st = Returned srtp_err_status_bad_param st'"
    using a e(4) by (simp add: known_answer_case_def call_alloc_def and_then_def)
  then show ?thesis using e by (auto simp: logged_def)
qed

text \<open>
  C3. A vector whose declared ciphertext length exceeds the 128 octets of the scratch
  buffer. The guard comes after the allocation and the key initialisation; when these have
  succeeded, the instance carries its table, and either direction of the known-answer test
  returns bad-parameter after handing that instance to \<open>srtp_cipher_dealloc\<close>, which
  releases it through the table's \<open>dealloc\<close>: the record shows the initialisation and this
  deallocation, the memory is the one \<open>dealloc\<close> left, and the scratch buffer is as it
  was (no octet was copied). For the vector as a whole the test, and with it the whole
  self-test when the vector is the first of the list, returns bad-parameter having made
  the three calls alloc, init, dealloc.
\<close>

theorem oversized_ciphertext_bad_param:
  assumes "SELF_TEST_BUF_OCTETS < ciphertext_length_octets tc"
  shows
    "(srtp_cipher_init (c :: ('s, 'w) srtp_cipher_t option) (key tc) (world st) =
          (srtp_err_status_ok, w1) \<longrightarrow>
        (\<exists>ci t d w2 st' st''. c = Some ci \<and> cipher_type ci = Some t \<and>
           dealloc t (state ci) w1 = (d, w2) \<and>
           known_answer_encrypt c tc st = Returned srtp_err_status_bad_param st' \<and>
           known_answer_decrypt c tc st = Returned srtp_err_status_bad_param st'' \<and>
           trace st' = trace st @
             [(Call_init (key tc), srtp_err_status_ok), (Call_dealloc c w1 w2, d)] \<and>
           world st' = w2 \<and> buffer st' = buffer st \<and>
           trace st'' = trace st' \<and> world st'' = w2 \<and> buffer st'' = buffer st)) \<and>
     (srtp_cipher_type_alloc ct (key_length_octets tc) (tag_length_octets tc) (world st) =
          (srtp_err_status_ok, (c' :: ('s, 'w) srtp_cipher_t option), w0) \<and>
      srtp_cipher_init c' (key tc) w0 = (srtp_err_status_ok, w1') \<longrightarrow>
        (\<exists>ci t d w2 st' st''. c' = Some ci \<and> cipher_type ci = Some t \<and>
           dealloc t (state ci) w1' = (d, w2) \<and>
           known_answer_case ct tc st = Returned srtp_err_status_bad_param st' \<and>
           known_answer_tests ct (tc # rest) st = Returned srtp_err_status_bad_param st' \<and>
           trace st' = trace st @
             [(Call_alloc (key_length_octets tc) (tag_length_octets tc) c', srtp_err_status_ok),
              (Call_init (key tc), srtp_err_status_ok), (Call_dealloc c' w1' w2, d)] \<and>
           world st' = w2 \<and> buffer st' = buffer st \<and>
           srtp_cipher_type_test ct (tc # rest) st = Returned srtp_err_status_bad_param st'' \<and>
           trace st'' = trace st' \<and> world st'' = w2 \<and> buffer st'' = buffer st))"
proof -
  have whole: "\<exists>ci t d w2 st' st''. c' = Some ci \<and> cipher_type ci = Some t \<and>
           dealloc t (state ci) w1' = (d, w2) \<and>
           known_answer_case ct tc st = Returned srtp_err_status_bad_param st' \<and>
           known_answer_tests ct (tc # rest) st = Returned srtp_err_status_bad_param st' \<and>
           trace st' = trace st @
             [(Call_alloc (key_length_octets tc) (tag_length_octets tc) c', srtp_err_status_ok),
              (Call_init (key tc), srtp_err_status_ok), (Call_dealloc c' w1' w2, d)] \<and>
           world st' = w2 \<and> buffer st' = buffer st \<and>
           srtp_cipher_type_test ct (tc # rest) st = Returned srtp_err_status_bad_param st'' \<and>
           trace st'' = trace st' \<and> world st'' = w2 \<and> buffer st'' = buffer st"
    if a: "srtp_cipher_type_alloc ct (key_length_octets tc) (tag_length_octets tc) (world st) =
          (srtp_err_status_ok, c', w0)"
      and i: "srtp_cipher_init c' (key tc) w0 = (srtp_err_status_ok, w1')"
  proof -
    from oversized_vector[OF assms a i, of rest] obtain ci t d w2 st' where
        v: "c' = Some ci" "cipher_type ci = Some t" "dealloc t (state ci) w1' = (d, w2)"
           "known_answer_case ct tc st = Returned srtp_err_status_bad_param st'"
           "known_answer_tests ct (tc # rest) st = Returned srtp_err_status_bad_param st'"
           "trace st' = trace st @
             [(Call_alloc (key_length_octets tc) (tag_length_octets tc) c', srtp_err_status_ok),
              (Call_init (key tc), srtp_err_status_ok), (Call_dealloc c' w1' w2, d)]"
           "world st' = w2" "buffer st' = buffer st"
      by blast
    have a0: "srtp_cipher_type_alloc ct (key_length_octets tc) (tag_length_octets tc)
          (world (st\<lparr>case_num := 0\<rparr>)) = (srtp_err_status_ok, c', w0)"
      using a by simp
    from oversized_vector[OF assms a0 i, of rest] obtain d0 w20 st'' where
        z: "dealloc t (state ci) w1' = (d0, w20)"
           "known_answer_tests ct (tc # rest) (st\<lparr>case_num := 0\<rparr>) =
              Returned srtp_err_status_bad_param st''"
           "trace st'' = trace (st\<lparr>case_num := 0\<rparr>) @
             [(Call_alloc (key_length_octets tc) (tag_length_octets tc) c', srtp_err_status_ok),
              (Call_init (key tc), srtp_err_status_ok), (Call_dealloc c' w1' w20, d0)]"
           "world st'' = w20" "buffer st'' = buffer (st\<lparr>case_num := 0\<rparr>)"
      using v(1,2) by auto
    have "srtp_cipher_type_test ct (tc # rest) st = Returned srtp_err_status_bad_param st''"
      using z(2) by (simp add: srtp_cipher_type_test_def and_then_def)
    then show ?thesis using v z by auto
  qed
  show ?thesis using oversized_direction[OF assms, of c st w1] whole by blast
qed

text \<open>
  C3 as stated fails: the key initialisation comes before the guard. With the cipher whose
  \<open>init\<close> refuses the key, the vector of declared ciphertext length 200 makes the
  self-test, and each direction on its own, return algorithm-failure.
\<close>

theorem oversized_ciphertext_init_refused_counterexample:
  "SELF_TEST_BUF_OCTETS <
     ciphertext_length_octets (sample_vector\<lparr>ciphertext_length_octets := 200\<rparr>) \<and>
   flow_status (srtp_cipher_type_test (Some refusing_cipher)
      [sample_vector\<lparr>ciphertext_length_octets := 200\<rparr>] sample_locals) =
     Some srtp_err_status_algo_fail \<and>
   flow_status (known_answer_encrypt (Some (refusing_cipher_instance 2))
      (sample_vector\<lparr>ciphertext_length_octets := 200\<rparr>) sample_locals) =
     Some srtp_err_status_algo_fail \<and>
   flow_status (known_answer_decrypt (Some (refusing_cipher_instance 2))
      (sample_vector\<lparr>ciphertext_length_octets := 200\<rparr>) sample_locals) =
     Some srtp_err_status_algo_fail \<and>
   srtp_err_status_algo_fail \<noteq> srtp_err_status_bad_param"
  by (simp add: engine_defs sample_locals_def sample_vector_def dispatch_defs call_defs
      step_defs eval_simps)

theorem oversized_ciphertext_bad_param_witness:
  "SELF_TEST_BUF_OCTETS <
     ciphertext_length_octets (sample_vector\<lparr>ciphertext_length_octets := 200\<rparr>) \<and>
   srtp_cipher_init (Some (copy_cipher_instance SRTP_AES_ICM_128 None 2))
      (key (sample_vector\<lparr>ciphertext_length_octets := 200\<rparr>)) (world sample_locals) =
     (srtp_err_status_ok, 0) \<and>
   flow_status (known_answer_encrypt (Some (copy_cipher_instance SRTP_AES_ICM_128 None 2))
      (sample_vector\<lparr>ciphertext_length_octets := 200\<rparr>) sample_locals) =
     Some srtp_err_status_bad_param \<and>
   flow_status (known_answer_decrypt (Some (copy_cipher_instance SRTP_AES_ICM_128 None 2))
      (sample_vector\<lparr>ciphertext_length_octets := 200\<rparr>) sample_locals) =
     Some srtp_err_status_bad_param \<and>
   srtp_cipher_type_alloc (Some (copy_cipher SRTP_AES_ICM_128 None))
      (key_length_octets (sample_vector\<lparr>ciphertext_length_octets := 200\<rparr>))
      (tag_length_octets (sample_vector\<lparr>ciphertext_length_octets := 200\<rparr>))
      (world sample_locals) =
     (srtp_err_status_ok, Some (copy_cipher_instance SRTP_AES_ICM_128 None 2), 1) \<and>
   srtp_cipher_init (Some (copy_cipher_instance SRTP_AES_ICM_128 None 2))
      (key (sample_vector\<lparr>ciphertext_length_octets := 200\<rparr>)) 1 = (srtp_err_status_ok, 1) \<and>
   flow_status (srtp_cipher_type_test (Some (copy_cipher SRTP_AES_ICM_128 None))
      [sample_vector\<lparr>ciphertext_length_octets := 200\<rparr>] sample_locals) =
     Some srtp_err_status_bad_param \<and>
   map_option world (flow_state (srtp_cipher_type_test (Some (copy_cipher SRTP_AES_ICM_128 None))
      [sample_vector\<lparr>ciphertext_length_octets := 200\<rparr>] sample_locals)) = Some 0 \<and>
   map_option trace (flow_state (srtp_cipher_type_test (Some (copy_cipher SRTP_AES_ICM_128 None))
      [sample_vector\<lparr>ciphertext_length_octets := 200\<rparr>] sample_locals)) =
     Some [(Call_alloc 2 0 (Some (copy_cipher_instance SRTP_AES_ICM_128 None 2)),
              srtp_err_status_ok),
           (Call_init [1, 2], srtp_err_status_ok),
           (Call_dealloc (Some (copy_cipher_instance SRTP_AES_ICM_128 None 2)) 1 0,
              srtp_err_status_ok)]"
proof -
  let ?v = "sample_vector\<lparr>ciphertext_length_octets := 200\<rparr>"
  let ?c = "Some (copy_cipher_instance SRTP_AES_ICM_128 None 2)"
  have big: "SELF_TEST_BUF_OCTETS < ciphertext_length_octets ?v"
    by (simp add: SELF_TEST_BUF_OCTETS_def)
  have i: "srtp_cipher_init ?c (key ?v) (world sample_locals) = (srtp_err_status_ok, 0)"
    by (simp add: srtp_cipher_init_def sample_locals_def)
  have a: "srtp_cipher_type_alloc (Some (copy_cipher SRTP_AES_ICM_128 None))
             (key_length_octets ?v) (tag_length_octets ?v) (world sample_locals) =
           (srtp_err_status_ok, ?c, 1)"
    by (simp add: srtp_cipher_type_alloc_def sample_vector_def sample_locals_def)
  have i': "srtp_cipher_init ?c (key ?v) 1 = (srtp_err_status_ok, 1)"
    by (simp add: srtp_cipher_init_def)
  have v: "key_length_octets ?v = 2" "tag_length_octets ?v = 0" "key ?v = [1, 2]"
      "trace sample_locals = []"
    by (simp_all add: sample_vector_def sample_locals_def)
  show ?thesis
    using oversized_ciphertext_bad_param[OF big, of ?c sample_locals 0
        "Some (copy_cipher SRTP_AES_ICM_128 None)" ?c 1 1 "[]"] big i a i' v
    by (auto simp: flow_status_def flow_state_def)
qed

text \<open>
  C6, as amended. Whenever the self-test returns, what it added to the record holds its
  successful allocations and its \<open>srtp_cipher_dealloc\<close> calls in pairs: each allocation
  is followed, before the next allocation or the return, by one deallocation call, on the
  instance that allocation handed back; so every instance allocated is passed to
  \<open>srtp_cipher_dealloc\<close> once, on every path, and none twice. The call has the outcome
  the table gives: an instance that carries its table is released by the table's
  \<open>dealloc\<close>, one without a table is refused with bad-parameter and stays as it is.
\<close>

theorem allocations_paired_with_deallocations:
  "(flow_state (srtp_cipher_type_test ct tcs st) = Some st' \<longrightarrow>
      (\<exists>evs. trace st' = trace st @ evs \<and> each_released (lifecycle evs))) \<and>
   (flow_state (srtp_cipher_type_self_test ct st) = Some st'' \<longrightarrow>
      (\<exists>evs. trace st'' = trace st @ evs \<and> each_released (lifecycle evs)))"
proof -
  have "paired (trace st) (srtp_cipher_type_self_test ct st)"
    using paired_srtp_cipher_type_test[of st ct]
    by (cases ct) (simp_all add: srtp_cipher_type_self_test_def paired_def flow_state_def)
  then show ?thesis using paired_srtp_cipher_type_test[of st ct tcs]
    by (auto simp: paired_def)
qed

lemma sample_long_key_self_test:
  "flow_status (srtp_cipher_type_test (Some (copy_cipher SRTP_AES_ICM_128 None))
      [sample_vector\<lparr>key_length_octets := 65\<rparr>] sample_locals) =
     Some srtp_err_status_cant_check \<and>
   map_option trace (flow_state (srtp_cipher_type_test (Some (copy_cipher SRTP_AES_ICM_128 None))
      [sample_vector\<lparr>key_length_octets := 65\<rparr>] sample_locals)) =
     Some [(Call_alloc 65 0 (Some (copy_cipher_instance SRTP_AES_ICM_128 None 65)),
              srtp_err_status_ok),
           (Call_init [1, 2], srtp_err_status_ok),
           (Call_set_iv [9] srtp_direction_encrypt, srtp_err_status_ok),
           (Call_encrypt 3 3, srtp_err_status_ok),
           (Call_init [1, 2], srtp_err_status_ok),
           (Call_set_iv [9] srtp_direction_decrypt, srtp_err_status_ok),
           (Call_decrypt 3 3, srtp_err_status_ok),
           (Call_dealloc (Some (copy_cipher_instance SRTP_AES_ICM_128 None 65)) 1 0,
              srtp_err_status_ok),
           (Call_alloc 65 0 (Some (copy_cipher_instance SRTP_AES_ICM_128 None 65)),
              srtp_err_status_ok),
           (Call_dealloc (Some (copy_cipher_instance SRTP_AES_ICM_128 None 65)) 1 0,
              srtp_err_status_ok)] \<and>
   map_option world (flow_state (srtp_cipher_type_test (Some (copy_cipher SRTP_AES_ICM_128 None))
      [sample_vector\<lparr>key_length_octets := 65\<rparr>] sample_locals)) = Some 0"
  by (simp add: engine_defs sample_locals_def sample_vector_def dispatch_defs call_defs
      step_defs eval_simps)

lemma sample_empty_self_test:
  "srtp_cipher_type_self_test (Some (copy_cipher SRTP_AES_ICM_128 None)) sample_locals =
     Returned srtp_err_status_cant_check sample_locals"
  by (simp add: srtp_cipher_type_self_test_def srtp_cipher_type_test_def)

text \<open>
  C6 as stated fails for an instance that comes without its table: the hollow cipher's
  instance is allocated, initialisation refuses it, and \<open>srtp_cipher_dealloc\<close> refuses it
  too; the self-test returns bad-parameter with the instance still counted as live.
\<close>

theorem instance_without_table_counterexample:
  "flow_status (srtp_cipher_type_test (Some hollow_cipher) [sample_vector] sample_locals) =
     Some srtp_err_status_bad_param \<and>
   map_option trace (flow_state
      (srtp_cipher_type_test (Some hollow_cipher) [sample_vector] sample_locals)) =
     Some [(Call_alloc 2 0 (Some (Cipher None (Some ()) 2 SRTP_NULL_CIPHER)), srtp_err_status_ok),
           (Call_init [1, 2], srtp_err_status_bad_param),
           (Call_dealloc (Some (Cipher None (Some ()) 2 SRTP_NULL_CIPHER)) 1 1,
              srtp_err_status_bad_param)] \<and>
   world sample_locals = 0 \<and>
   map_option world (flow_state
      (srtp_cipher_type_test (Some hollow_cipher) [sample_vector] sample_locals)) = Some 1"
  by (simp add: engine_defs sample_locals_def sample_vector_def dispatch_defs call_defs
      step_defs eval_simps hollow_cipher_def)

theorem allocations_paired_with_deallocations_witness:
  "flow_status (srtp_cipher_type_test (Some (copy_cipher SRTP_AES_ICM_128 None))
      [sample_vector\<lparr>key_length_octets := 65\<rparr>] sample_locals) =
     Some srtp_err_status_cant_check \<and>
   map_option (lifecycle \<circ> trace)
     (flow_state (srtp_cipher_type_test (Some (copy_cipher SRTP_AES_ICM_128 None))
        [sample_vector\<lparr>key_length_octets := 65\<rparr>] sample_locals)) =
     Some [(Call_alloc 65 0 (Some (copy_cipher_instance SRTP_AES_ICM_128 None 65)),
              srtp_err_status_ok),
           (Call_dealloc (Some (copy_cipher_instance SRTP_AES_ICM_128 None 65)) 1 0,
              srtp_err_status_ok),
           (Call_alloc 65 0 (Some (copy_cipher_instance SRTP_AES_ICM_128 None 65)),
              srtp_err_status_ok),
           (Call_dealloc (Some (copy_cipher_instance SRTP_AES_ICM_128 None 65)) 1 0,
              srtp_err_status_ok)] \<and>
   each_released
     [(Call_alloc 65 0 (Some (copy_cipher_instance SRTP_AES_ICM_128 None 65)),
         srtp_err_status_ok),
      (Call_dealloc (Some (copy_cipher_instance SRTP_AES_ICM_128 None 65)) (1 :: nat) 0,
         srtp_err_status_ok),
      (Call_alloc 65 0 (Some (copy_cipher_instance SRTP_AES_ICM_128 None 65)),
         srtp_err_status_ok),
      (Call_dealloc (Some (copy_cipher_instance SRTP_AES_ICM_128 None 65)) 1 0,
         srtp_err_status_ok)] \<and>
   dealloc (copy_cipher SRTP_AES_ICM_128 None) (Some ()) 1 = (srtp_err_status_ok, 0) \<and>
   flow_state (srtp_cipher_type_self_test (Some (copy_cipher SRTP_AES_ICM_128 None))
      sample_locals) = Some sample_locals \<and>
   each_released (lifecycle ([] :: (unit, nat) event list))"
proof -
  let ?ct = "Some (copy_cipher SRTP_AES_ICM_128 None)"
  let ?r = "srtp_cipher_type_test ?ct [sample_vector\<lparr>key_length_octets := 65\<rparr>] sample_locals"
  obtain x where x: "flow_state ?r = Some x"
    using sample_long_key_self_test by auto
  have t: "trace sample_locals = []" by (simp add: sample_locals_def)
  have s: "flow_state (srtp_cipher_type_self_test ?ct sample_locals) = Some sample_locals"
    by (simp add: sample_empty_self_test flow_state_def)
  show ?thesis
    using allocations_paired_with_deallocations[of ?ct
        "[sample_vector\<lparr>key_length_octets := 65\<rparr>]" sample_locals x sample_locals] x s t
      sample_long_key_self_test
    by (simp add: dealloc_outcome_def)
qed

section \<open>Properties of the randomized pass\<close>

lemma random_trial_long_key:
  assumes "MAX_KEY_LEN < key_length_octets tc" and "locals_ok st"
  shows "\<exists>d w1 st'. random_trial c tc st = Returned srtp_err_status_cant_check st' \<and>
           random_trials NUM_RAND_TESTS c tc st = Returned srtp_err_status_cant_check st' \<and>
           dealloc_outcome c d (world st) w1 \<and>
           trace st' = trace st @ [(Call_dealloc c (world st) w1, d)] \<and> world st' = w1 \<and>
           rnd_key st' = rnd_key st \<and> rnd_iv st' = rnd_iv st"
proof -
  obtain st1 where d: "draw_plaintext st = Proceed st1" "rnd_key st1 = rnd_key st"
      "rnd_iv st1 = rnd_iv st" "trace st1 = trace st" "world st1 = world st"
    using draw_plaintext_ok[OF assms(2)] by blast
  obtain s w where dl: "srtp_cipher_dealloc c (world st1) = (s, w)"
    by (cases "srtp_cipher_dealloc c (world st1)")
  let ?st' = "logged (Call_dealloc c (world st1) w) s w st1"
  have t: "random_trial c tc st = Returned srtp_err_status_cant_check ?st'"
    using d(1) dl assms(1)
    by (simp add: random_trial_def and_then_def key_guard_def fail_with_def call_dealloc_def)
  then have "random_trials NUM_RAND_TESTS c tc st = Returned srtp_err_status_cant_check ?st'"
    by (simp add: random_trials_first)
  moreover have "dealloc_outcome c s (world st) w"
    using dl d(5) by (simp add: dealloc_outcome_iff)
  ultimately show ?thesis using t d by (auto simp: logged_def)
qed

text \<open>
  C9. The first vector's key length exceeds the 64 octets of the key array (the arrays
  being of the declared sizes). The randomized pass on the list allocates its instance
  with the first vector's lengths; if that fails it returns the allocator's status, no
  trial being run. Otherwise the first trial ends the pass: it returns cannot-verify, and
  the record shows, after the allocation, one call only, \<open>srtp_cipher_dealloc\<close> on the
  instance that was allocated, with the outcome the table's \<open>dealloc\<close> gives on it; the
  memory is the one this call left. The key and IV arrays are as they were: no random key
  octet was written. The same holds of any single trial on any instance.
\<close>

theorem long_key_cant_check:
  assumes "MAX_KEY_LEN < key_length_octets tc" and "locals_ok st"
  shows
    "(\<exists>a c0 w0. srtp_cipher_type_alloc ct (key_length_octets tc) (tag_length_octets tc)
                  (world st) = (a, c0, w0) \<and>
        (if a = srtp_err_status_ok
         then \<exists>d w1 st'.
                random_tests ct (tc # rest) st = Returned srtp_err_status_cant_check st' \<and>
                dealloc_outcome c0 d w0 w1 \<and>
                trace st' = trace st @
                  [(Call_alloc (key_length_octets tc) (tag_length_octets tc) c0,
                      srtp_err_status_ok),
                   (Call_dealloc c0 w0 w1, d)] \<and>
                world st' = w1 \<and> rnd_key st' = rnd_key st \<and> rnd_iv st' = rnd_iv st
         else \<exists>st'.
                random_tests ct (tc # rest) st = Returned a st' \<and>
                trace st' = trace st @
                  [(Call_alloc (key_length_octets tc) (tag_length_octets tc) c0, a)] \<and>
                world st' = w0 \<and> rnd_key st' = rnd_key st \<and> rnd_iv st' = rnd_iv st)) \<and>
     (\<exists>d w1 st'. random_trial c tc st = Returned srtp_err_status_cant_check st' \<and>
        random_trials NUM_RAND_TESTS c tc st = Returned srtp_err_status_cant_check st' \<and>
        dealloc_outcome c d (world st) w1 \<and>
        trace st' = trace st @ [(Call_dealloc c (world st) w1, d)] \<and> world st' = w1 \<and>
        rnd_key st' = rnd_key st \<and> rnd_iv st' = rnd_iv st)"
proof -
  obtain a c0 w0 where
      al: "srtp_cipher_type_alloc ct (key_length_octets tc) (tag_length_octets tc) (world st) =
             (a, c0, w0)"
    by (cases "srtp_cipher_type_alloc ct (key_length_octets tc) (tag_length_octets tc) (world st)")
  let ?st1 = "logged (Call_alloc (key_length_octets tc) (tag_length_octets tc) c0) a w0 st"
  have "if a = srtp_err_status_ok
         then \<exists>d w1 st'.
                random_tests ct (tc # rest) st = Returned srtp_err_status_cant_check st' \<and>
                dealloc_outcome c0 d w0 w1 \<and>
                trace st' = trace st @
                  [(Call_alloc (key_length_octets tc) (tag_length_octets tc) c0,
                      srtp_err_status_ok),
                   (Call_dealloc c0 w0 w1, d)] \<and>
                world st' = w1 \<and> rnd_key st' = rnd_key st \<and> rnd_iv st' = rnd_iv st
         else \<exists>st'.
                random_tests ct (tc # rest) st = Returned a st' \<and>
                trace st' = trace st @
                  [(Call_alloc (key_length_octets tc) (tag_length_octets tc) c0, a)] \<and>
                world st' = w0 \<and> rnd_key st' = rnd_key st \<and> rnd_iv st' = rnd_iv st"
  proof (cases "a = srtp_err_status_ok")
    case False
    then show ?thesis using al by (simp add: random_tests_def call_alloc_def logged_def)
  next
    case True
    have "locals_ok ?st1" using assms(2) by (simp add: locals_ok_def logged_def)
    from random_trial_long_key[OF assms(1) this, of c0] obtain d w1 st' where
        r: "random_trials NUM_RAND_TESTS c0 tc ?st1 = Returned srtp_err_status_cant_check st'"
           "dealloc_outcome c0 d (world ?st1) w1"
           "trace st' = trace ?st1 @ [(Call_dealloc c0 (world ?st1) w1, d)]" "world st' = w1"
           "rnd_key st' = rnd_key ?st1" "rnd_iv st' = rnd_iv ?st1"
      by blast
    have "random_tests ct (tc # rest) st = Returned srtp_err_status_cant_check st'"
      using al True r(1) by (simp add: random_tests_def call_alloc_def and_then_def)
    then show ?thesis using True r by (auto simp: logged_def)
  qed
  then show ?thesis using al random_trial_long_key[OF assms, of c] by blast
qed

lemma sample_long_key_random_tests:
  "flow_status (random_tests (Some (copy_cipher SRTP_AES_ICM_128 None))
      [sample_vector\<lparr>key_length_octets := 65\<rparr>] sample_locals) =
     Some srtp_err_status_cant_check \<and>
   map_option trace (flow_state (random_tests (Some (copy_cipher SRTP_AES_ICM_128 None))
      [sample_vector\<lparr>key_length_octets := 65\<rparr>] sample_locals)) =
     Some [(Call_alloc 65 0 (Some (copy_cipher_instance SRTP_AES_ICM_128 None 65)),
              srtp_err_status_ok),
           (Call_dealloc (Some (copy_cipher_instance SRTP_AES_ICM_128 None 65)) 1 0,
              srtp_err_status_ok)] \<and>
   map_option world (flow_state (random_tests (Some (copy_cipher SRTP_AES_ICM_128 None))
      [sample_vector\<lparr>key_length_octets := 65\<rparr>] sample_locals)) = Some 0 \<and>
   map_option rnd_key (flow_state (random_tests (Some (copy_cipher SRTP_AES_ICM_128 None))
      [sample_vector\<lparr>key_length_octets := 65\<rparr>] sample_locals)) = Some (replicate 64 0)"
  by (simp add: engine_defs sample_locals_def sample_vector_def dispatch_defs call_defs
      step_defs eval_simps)

theorem long_key_cant_check_witness:
  "MAX_KEY_LEN < key_length_octets (sample_vector\<lparr>key_length_octets := 65\<rparr>) \<and>
   locals_ok sample_locals \<and>
   srtp_cipher_type_alloc (Some (copy_cipher SRTP_AES_ICM_128 None))
      (key_length_octets (sample_vector\<lparr>key_length_octets := 65\<rparr>))
      (tag_length_octets (sample_vector\<lparr>key_length_octets := 65\<rparr>)) (world sample_locals) =
     (srtp_err_status_ok, Some (copy_cipher_instance SRTP_AES_ICM_128 None 65), 1) \<and>
   flow_status (random_tests (Some (copy_cipher SRTP_AES_ICM_128 None))
      [sample_vector\<lparr>key_length_octets := 65\<rparr>] sample_locals) =
     Some srtp_err_status_cant_check \<and>
   map_option trace (flow_state (random_tests (Some (copy_cipher SRTP_AES_ICM_128 None))
      [sample_vector\<lparr>key_length_octets := 65\<rparr>] sample_locals)) =
     Some [(Call_alloc 65 0 (Some (copy_cipher_instance SRTP_AES_ICM_128 None 65)),
              srtp_err_status_ok),
           (Call_dealloc (Some (copy_cipher_instance SRTP_AES_ICM_128 None 65)) 1 0,
              srtp_err_status_ok)] \<and>
   map_option world (flow_state (random_tests (Some (copy_cipher SRTP_AES_ICM_128 None))
      [sample_vector\<lparr>key_length_octets := 65\<rparr>] sample_locals)) = Some 0 \<and>
   map_option rnd_key (flow_state (random_tests (Some (copy_cipher SRTP_AES_ICM_128 None))
      [sample_vector\<lparr>key_length_octets := 65\<rparr>] sample_locals)) = Some (replicate 64 0) \<and>
   dealloc_outcome (Some (copy_cipher_instance SRTP_AES_ICM_128 None 65)) srtp_err_status_ok
      (1 :: nat) 0 \<and>
   flow_status (random_trial (Some (copy_cipher_instance SRTP_AES_ICM_128 None 65))
      (sample_vector\<lparr>key_length_octets := 65\<rparr>) sample_locals) =
     Some srtp_err_status_cant_check"
proof -
  let ?v = "sample_vector\<lparr>key_length_octets := 65\<rparr>"
  have k: "MAX_KEY_LEN < key_length_octets ?v"
    by (simp add: MAX_KEY_LEN_def)
  have a: "srtp_cipher_type_alloc (Some (copy_cipher SRTP_AES_ICM_128 None))
      (key_length_octets ?v) (tag_length_octets ?v) (world sample_locals) =
     (srtp_err_status_ok, Some (copy_cipher_instance SRTP_AES_ICM_128 None 65), 1)"
    by (simp add: srtp_cipher_type_alloc_def sample_vector_def sample_locals_def)
  have o: "dealloc_outcome (Some (copy_cipher_instance SRTP_AES_ICM_128 None 65))
      srtp_err_status_ok (1 :: nat) 0"
    by (simp add: dealloc_outcome_def)
  show ?thesis
    using long_key_cant_check[OF k locals_ok_sample,
        of "Some (copy_cipher SRTP_AES_ICM_128 None)" "[]"
           "Some (copy_cipher_instance SRTP_AES_ICM_128 None 65)"]
      k locals_ok_sample a o sample_long_key_random_tests
      sample_long_key_trial[of SRTP_AES_ICM_128 None]
    by simp
qed
text \<open>
  C8. The plaintext length of a trial is the 32-bit random value modulo 128 - 64: it is
  below 64, hence below the capacity of the scratch buffer, in whatever state the trial
  ends; and with arrays of the declared sizes the draw fills the buffers without a fault.
\<close>

theorem plaintext_len_below_64:
  "(flow_state (random_trial c tc st) = Some st' \<longrightarrow>
      plaintext_len st' =
        unat (fst (srtp_cipher_rand_u32_for_tests (big_endian st) (rand_src st) (rand_calls st))
                mod of_nat (SELF_TEST_BUF_OCTETS - 64)) \<and>
      plaintext_len st' < 64 \<and> plaintext_len st' < SELF_TEST_BUF_OCTETS) \<and>
   (locals_ok st \<longrightarrow> (\<exists>st1. draw_plaintext st = Proceed st1 \<and> plaintext_len st1 < 64))"
proof -
  have "plaintext_len st1 < 64" if "draw_plaintext st = Proceed st1" for st1
    using draw_plaintext_len[OF that] plaintext_len_less by simp
  then have "locals_ok st \<longrightarrow> (\<exists>st1. draw_plaintext st = Proceed st1 \<and> plaintext_len st1 < 64)"
    using draw_plaintext_ok[of st] by blast
  moreover have "plaintext_len st' < 64 \<and> plaintext_len st' < SELF_TEST_BUF_OCTETS"
    if "flow_state (random_trial c tc st) = Some st'"
    using random_trial_plaintext_len[OF that] plaintext_len_less[of "fst
      (srtp_cipher_rand_u32_for_tests (big_endian st) (rand_src st) (rand_calls st))"]
    by (simp add: SELF_TEST_BUF_OCTETS_def)
  ultimately show ?thesis using random_trial_plaintext_len[of c tc st st'] by blast
qed

theorem plaintext_len_below_64_witness:
  "locals_ok sample_locals \<and>
   map_option plaintext_len
     (flow_state (random_trial (Some (copy_cipher_instance SRTP_AES_ICM_128 None 65))
        (sample_vector\<lparr>key_length_octets := 65\<rparr>) sample_locals)) = Some 3 \<and>
   unat (fst (srtp_cipher_rand_u32_for_tests (big_endian sample_locals) (rand_src sample_locals)
                (rand_calls sample_locals)) mod of_nat (SELF_TEST_BUF_OCTETS - 64)) = 3 \<and>
   (3 :: nat) < 64"
proof -
  let ?r = "random_trial (Some (copy_cipher_instance SRTP_AES_ICM_128 None 65))
        (sample_vector\<lparr>key_length_octets := 65\<rparr>) sample_locals"
  obtain st' where s: "flow_state ?r = Some st'" "plaintext_len st' = 3"
    using sample_long_key_trial[of SRTP_AES_ICM_128 None] by auto
  show ?thesis
    using plaintext_len_below_64[of "Some (copy_cipher_instance SRTP_AES_ICM_128 None 65)"
        "sample_vector\<lparr>key_length_octets := 65\<rparr>" sample_locals st'] s locals_ok_sample
    by simp
qed

lemma set_iv_calls_append: "set_iv_calls (xs @ ys) = set_iv_calls xs @ set_iv_calls ys"
  by (induction xs rule: set_iv_calls.induct) simp_all

lemma set_iv_calls_follows:
  assumes "follows s ps evs"
    and "\<And>p iv' d x. p \<in> set ps \<Longrightarrow> p (Call_set_iv iv' d) \<Longrightarrow> iv' = iv"
  shows "list_all (\<lambda>p. fst p = iv) (set_iv_calls evs)"
  using assms
proof (induction s ps evs rule: follows.induct)
  case (3 s p ps e es)
  have e: "list_all (\<lambda>p. fst p = iv) (set_iv_calls [e])"
  proof (cases e)
    case (Pair call x)
    then show ?thesis using 3(2) 3(3)[of p] by (cases call) auto
  qed
  have "list_all (\<lambda>p. fst p = iv) (set_iv_calls es)"
  proof (cases "snd e = srtp_err_status_ok")
    case True
    then have "follows s ps es" using 3(2) by simp
    then show ?thesis using 3(1)[OF True] 3(3) by auto
  next
    case False
    then show ?thesis using 3(2) by simp
  qed
  then show ?case using e set_iv_calls_append[of "[e]" es] by simp
qed simp_all

lemma set_iv_calls_trials:
  "follows s (concat (replicate n (trial_calls c tc))) evs \<Longrightarrow>
   list_all (\<lambda>p. fst p = idx tc) (set_iv_calls evs)"
  by (erule set_iv_calls_follows)
     (auto simp: trial_calls_def some_init_def set_iv_with_def set_aad_with_def some_encrypt_def
        some_decrypt_def some_get_tag_def split: if_splits)

text \<open>
  C1, as amended. The randomized pass on a list of vectors gives every
  \<open>srtp_cipher_set_iv\<close> call the \<open>idx\<close> field of the first vector of the list. The calls
  recorded after the allocation follow the script of the trials, 128 times over, up to
  the call that failed, if one did; in the script of a trial the IV is installed twice,
  the first vector's \<open>idx\<close> for the encrypt direction and the same \<open>idx\<close> for the decrypt
  direction. A trial that passes made exactly the calls listed, with these two
  \<open>srtp_cipher_set_iv\<close> calls among them.
\<close>

theorem set_iv_takes_vector_idx:
  "(flow_state (random_tests ct (tc # rest) st) = Some st' \<longrightarrow>
      (\<exists>a c evs.
         trace st' =
           trace st @ (Call_alloc (key_length_octets tc) (tag_length_octets tc) c, a) # evs \<and>
         list_all (\<lambda>p. fst p = idx tc) (set_iv_calls evs) \<and>
         (if a = srtp_err_status_ok
          then lifetime c (concat (replicate NUM_RAND_TESTS (trial_calls c tc))) evs
          else evs = []))) \<and>
   trial_calls (Some ci) tc =
     [some_init, set_iv_with (idx tc) srtp_direction_encrypt] @
     (if gcm_algorithm ci then [set_aad_with (aad tc) (aad_length_octets tc)] else []) @
     [some_encrypt] @
     (if gcm_algorithm ci then [some_get_tag] else []) @
     [some_init, set_iv_with (idx tc) srtp_direction_decrypt] @
     (if gcm_algorithm ci then [set_aad_with (aad tc) (aad_length_octets tc)] else []) @
     [some_decrypt] \<and>
   (random_trial (Some ci) tc st = Proceed st'' \<longrightarrow>
      (\<exists>n m p evs. trace st'' = trace st @ evs \<and>
         evs =
           [(Call_init (rnd_key st''), srtp_err_status_ok),
            (Call_set_iv (idx tc) srtp_direction_encrypt, srtp_err_status_ok)] @
           (if gcm_algorithm ci
            then [(Call_set_aad (aad tc) (aad_length_octets tc), srtp_err_status_ok)] else []) @
           [(Call_encrypt (plaintext_len st'') n, srtp_err_status_ok)] @
           (if gcm_algorithm ci then [(Call_get_tag m, srtp_err_status_ok)] else []) @
           [(Call_init (rnd_key st''), srtp_err_status_ok),
            (Call_set_iv (idx tc) srtp_direction_decrypt, srtp_err_status_ok)] @
           (if gcm_algorithm ci
            then [(Call_set_aad (aad tc) (aad_length_octets tc), srtp_err_status_ok)] else []) @
           [(Call_decrypt (encrypted_len st'') p, srtp_err_status_ok)] \<and>
         set_iv_calls evs =
           [(idx tc, srtp_direction_encrypt), (idx tc, srtp_direction_decrypt)]))"
proof -
  have pass: "\<exists>a c evs.
         trace st' =
           trace st @ (Call_alloc (key_length_octets tc) (tag_length_octets tc) c, a) # evs \<and>
         list_all (\<lambda>p. fst p = idx tc) (set_iv_calls evs) \<and>
         (if a = srtp_err_status_ok
          then lifetime c (concat (replicate NUM_RAND_TESTS (trial_calls c tc))) evs
          else evs = [])"
    if "flow_state (random_tests ct (tc # rest) st) = Some st'"
  proof -
    from random_tests_record[OF that] obtain a c evs where
        t: "trace st' =
           trace st @ (Call_alloc (key_length_octets tc) (tag_length_octets tc) c, a) # evs"
        and l: "if a = srtp_err_status_ok
          then lifetime c (concat (replicate NUM_RAND_TESTS (trial_calls c tc))) evs
          else evs = []"
      by blast
    have "list_all (\<lambda>p. fst p = idx tc) (set_iv_calls evs)"
    proof (cases "a = srtp_err_status_ok")
      case False
      then show ?thesis using l by simp
    next
      case True
      then obtain body s w w' d where
          b: "evs = body @ [(Call_dealloc c w w', d)]"
             "follows s (concat (replicate NUM_RAND_TESTS (trial_calls c tc))) body"
        using l by (auto simp: lifetime_def)
      show ?thesis using set_iv_calls_trials[OF b(2)] b(1) by (simp add: set_iv_calls_append)
    qed
    then show ?thesis using t l by blast
  qed
  have trial: "\<exists>n m p evs. trace st'' = trace st @ evs \<and>
         evs =
           [(Call_init (rnd_key st''), srtp_err_status_ok),
            (Call_set_iv (idx tc) srtp_direction_encrypt, srtp_err_status_ok)] @
           (if gcm_algorithm ci
            then [(Call_set_aad (aad tc) (aad_length_octets tc), srtp_err_status_ok)] else []) @
           [(Call_encrypt (plaintext_len st'') n, srtp_err_status_ok)] @
           (if gcm_algorithm ci then [(Call_get_tag m, srtp_err_status_ok)] else []) @
           [(Call_init (rnd_key st''), srtp_err_status_ok),
            (Call_set_iv (idx tc) srtp_direction_decrypt, srtp_err_status_ok)] @
           (if gcm_algorithm ci
            then [(Call_set_aad (aad tc) (aad_length_octets tc), srtp_err_status_ok)] else []) @
           [(Call_decrypt (encrypted_len st'') p, srtp_err_status_ok)] \<and>
         set_iv_calls evs =
           [(idx tc, srtp_direction_encrypt), (idx tc, srtp_direction_decrypt)]"
    if "random_trial (Some ci) tc st = Proceed st''"
  proof -
    from random_trial_Proceed[OF that] obtain n m p where
        "trace st'' = trace st @
           [(Call_init (rnd_key st''), srtp_err_status_ok),
            (Call_set_iv (idx tc) srtp_direction_encrypt, srtp_err_status_ok)] @
           (if gcm_algorithm ci
            then [(Call_set_aad (aad tc) (aad_length_octets tc), srtp_err_status_ok)] else []) @
           [(Call_encrypt (plaintext_len st'') n, srtp_err_status_ok)] @
           (if gcm_algorithm ci then [(Call_get_tag m, srtp_err_status_ok)] else []) @
           [(Call_init (rnd_key st''), srtp_err_status_ok),
            (Call_set_iv (idx tc) srtp_direction_decrypt, srtp_err_status_ok)] @
           (if gcm_algorithm ci
            then [(Call_set_aad (aad tc) (aad_length_octets tc), srtp_err_status_ok)] else []) @
           [(Call_decrypt (encrypted_len st'') p, srtp_err_status_ok)]"
      by blast
    then show ?thesis
      by (intro exI[where x=n] exI[where x=m] exI[where x=p]) (simp add: set_iv_calls_append)
  qed
  have "trial_calls (Some ci) tc =
     [some_init, set_iv_with (idx tc) srtp_direction_encrypt] @
     (if gcm_algorithm ci then [set_aad_with (aad tc) (aad_length_octets tc)] else []) @
     [some_encrypt] @
     (if gcm_algorithm ci then [some_get_tag] else []) @
     [some_init, set_iv_with (idx tc) srtp_direction_decrypt] @
     (if gcm_algorithm ci then [set_aad_with (aad tc) (aad_length_octets tc)] else []) @
     [some_decrypt]"
    by (simp add: trial_calls_def is_gcm_def)
  then show ?thesis using pass trial by blast
qed

lemma sample_trial:
  "flow_status (random_trial (Some (copy_cipher_instance SRTP_AES_ICM_128 None 2))
      sample_vector sample_locals) = None \<and>
   map_option trace (flow_state (random_trial (Some (copy_cipher_instance SRTP_AES_ICM_128 None 2))
      sample_vector sample_locals)) =
     Some [(Call_init (replicate 2 3 @ replicate 62 0), srtp_err_status_ok),
           (Call_set_iv [9] srtp_direction_encrypt, srtp_err_status_ok),
           (Call_encrypt 3 3, srtp_err_status_ok),
           (Call_init (replicate 2 3 @ replicate 62 0), srtp_err_status_ok),
           (Call_set_iv [9] srtp_direction_decrypt, srtp_err_status_ok),
           (Call_decrypt 3 3, srtp_err_status_ok)] \<and>
   map_option rnd_iv (flow_state (random_trial (Some (copy_cipher_instance SRTP_AES_ICM_128 None 2))
      sample_vector sample_locals)) = Some (replicate 64 3)"
  by (simp add: engine_defs sample_locals_def sample_vector_def dispatch_defs call_defs
      step_defs eval_simps)

text \<open>
  C1 as stated fails: in the sample trial the encrypt-direction call is given the vector's
  \<open>idx\<close>, \<open>[9]\<close>, while the random IV drawn for the trial begins with 3.
\<close>

theorem random_iv_not_passed_counterexample:
  "flow_state (random_trial (Some (copy_cipher_instance SRTP_AES_ICM_128 None 2))
      sample_vector sample_locals) \<noteq> None \<and>
   set_iv_calls (trace (the (flow_state (random_trial
      (Some (copy_cipher_instance SRTP_AES_ICM_128 None 2)) sample_vector sample_locals)))) =
     [([9], srtp_direction_encrypt), ([9], srtp_direction_decrypt)] \<and>
   take 1 (rnd_iv (the (flow_state (random_trial
      (Some (copy_cipher_instance SRTP_AES_ICM_128 None 2)) sample_vector sample_locals)))) = [3] \<and>
   fst (hd (set_iv_calls (trace (the (flow_state (random_trial
      (Some (copy_cipher_instance SRTP_AES_ICM_128 None 2)) sample_vector sample_locals)))))) \<noteq>
     rnd_iv (the (flow_state (random_trial
      (Some (copy_cipher_instance SRTP_AES_ICM_128 None 2)) sample_vector sample_locals))) \<and>
   idx sample_vector = [9]"
proof -
  obtain x where x: "flow_state (random_trial (Some (copy_cipher_instance SRTP_AES_ICM_128 None 2))
        sample_vector sample_locals) = Some x"
    using sample_trial by auto
  have "(replicate 64 (3 :: 8 word)) \<noteq> [9]"
    by (simp add: numeral_eq_Suc)
  moreover have "take 1 (replicate 64 (3 :: 8 word)) = [3]"
    by (simp add: numeral_eq_Suc)
  ultimately show ?thesis using sample_trial x by (auto simp: sample_vector_def)
qed

lemma sample_failing_pass:
  "flow_status (random_tests (Some (copy_cipher SRTP_AES_ICM_128 (Some [0xAA])))
      [sample_vector] sample_locals) = Some srtp_err_status_algo_fail \<and>
   map_option trace (flow_state (random_tests (Some (copy_cipher SRTP_AES_ICM_128 (Some [0xAA])))
      [sample_vector] sample_locals)) =
     Some [(Call_alloc 2 0 (Some (copy_cipher_instance SRTP_AES_ICM_128 (Some [0xAA]) 2)),
              srtp_err_status_ok),
           (Call_init (replicate 2 3 @ replicate 62 0), srtp_err_status_ok),
           (Call_set_iv [9] srtp_direction_encrypt, srtp_err_status_ok),
           (Call_encrypt 3 3, srtp_err_status_ok),
           (Call_init (replicate 2 3 @ replicate 62 0), srtp_err_status_ok),
           (Call_set_iv [9] srtp_direction_decrypt, srtp_err_status_ok),
           (Call_decrypt 3 2, srtp_err_status_ok),
           (Call_dealloc (Some (copy_cipher_instance SRTP_AES_ICM_128 (Some [0xAA]) 2)) 1 0,
              srtp_err_status_ok)]"
  by (simp add: engine_defs sample_locals_def sample_vector_def dispatch_defs call_defs
      step_defs eval_simps)

theorem set_iv_takes_vector_idx_witness:
  "flow_status (random_tests (Some (copy_cipher SRTP_AES_ICM_128 (Some [0xAA])))
      [sample_vector] sample_locals) = Some srtp_err_status_algo_fail \<and>
   set_iv_calls (trace (the (flow_state (random_tests
      (Some (copy_cipher SRTP_AES_ICM_128 (Some [0xAA]))) [sample_vector] sample_locals)))) =
     [(idx sample_vector, srtp_direction_encrypt), (idx sample_vector, srtp_direction_decrypt)] \<and>
   random_trial (Some (copy_cipher_instance SRTP_AES_ICM_128 None 2)) sample_vector sample_locals =
     Proceed (the (flow_state (random_trial (Some (copy_cipher_instance SRTP_AES_ICM_128 None 2))
        sample_vector sample_locals))) \<and>
   set_iv_calls (trace (the (flow_state (random_trial
        (Some (copy_cipher_instance SRTP_AES_ICM_128 None 2)) sample_vector sample_locals)))) =
     [(idx sample_vector, srtp_direction_encrypt), (idx sample_vector, srtp_direction_decrypt)]"
proof -
  let ?c = "copy_cipher_instance SRTP_AES_ICM_128 None 2"
  let ?ct = "Some (copy_cipher SRTP_AES_ICM_128 (Some [0xAA]))"
  obtain x where x: "flow_state (random_trial (Some ?c) sample_vector sample_locals) = Some x"
    using sample_trial by auto
  then have p: "random_trial (Some ?c) sample_vector sample_locals = Proceed x"
    using sample_trial by (simp add: flow_Proceed_iff)
  obtain y where y: "flow_state (random_tests ?ct [sample_vector] sample_locals) = Some y"
    using sample_failing_pass by auto
  have t: "trace sample_locals = []" "idx sample_vector = [9]"
    by (simp_all add: sample_locals_def sample_vector_def)
  show ?thesis
    using set_iv_takes_vector_idx[of ?ct sample_vector "[]" sample_locals y ?c x] x p y t
      sample_failing_pass
    by auto
qed

section \<open>Properties of the AEAD steps and of the benchmark\<close>
















lemma all_ok_append: "all_ok (xs @ ys) = (all_ok xs \<and> all_ok ys)"
  by (simp add: all_ok_def)
















end
